theory Spec2Isabelle
  imports Main "HOL-Library.AList"
begin

section \<open>Python values and errors\<close>

text \<open>
  The exceptions the modelled code can raise. A function of the source that can raise
  returns \<open>error + 'a\<close>, with \<open>Inl\<close> for the exception.
\<close>

datatype error = ZeroDivisionError | TypeError | AttributeError | UnicodeDecodeError | OSError

text \<open>
  \<open>needle in haystack\<close> on Python strings: \<open>needle\<close> occurs as a contiguous
  substring of \<open>haystack\<close>.
\<close>

fun str_in :: "string \<Rightarrow> string \<Rightarrow> bool" where
  "str_in needle [] = (needle = [])"
| "str_in needle (c # cs) = (take (length needle) (c # cs) = needle \<or> str_in needle cs)"

text \<open>
  \<open>int(a / b)\<close> on Python integers: \<open>/\<close> raises ZeroDivisionError when \<open>b\<close> is zero,
  and \<open>int\<close> truncates the quotient toward zero. (The quotient is a float in Python; it
  is exact for the magnitudes an activity file can hold, sums below \<open>2 ^ 53\<close>.)
\<close>

definition int_of_truediv :: "int \<Rightarrow> int \<Rightarrow> error + int" where
  "int_of_truediv a b =
     (if b = 0 then Inl ZeroDivisionError
      else Inr (sgn a * sgn b * (\<bar>a\<bar> div \<bar>b\<bar>)))"

section \<open>Content transformer: \<open>FitFileProcessor\<close>\<close>

text \<open>
  The messages of an activity file, as the transformer distinguishes them. A field that
  the parser reports as \<open>None\<close> (or that is missing) is \<open>None\<close>; the fields the
  transformer never reads are kept as opaque bytes. The discriminators are the
  \<open>isinstance\<close> tests of the source.
\<close>

type_synonym opaque = "nat list"

record record_message =
  rec_cadence :: "int option"
  rec_power :: "int option"
  rec_heart_rate :: "int option"
  rec_temperature :: "int option"
  rec_other :: opaque

record session_message =
  avg_cadence :: "int option"
  avg_power :: "int option"
  avg_heart_rate :: "int option"
  session_other :: opaque

datatype message =
    is_LapMessage: LapMessage opaque
  | is_RecordMessage: RecordMessage record_message
  | is_SessionMessage: SessionMessage session_message
  | is_OtherMessage: OtherMessage opaque

text \<open>\<open>getattr(message, field_name, None)\<close> on a per-sample record.\<close>

definition getattr_record :: "record_message \<Rightarrow> string \<Rightarrow> int option" where
  "getattr_record message field_name =
     (if field_name = ''cadence'' then rec_cadence message
      else if field_name = ''power'' then rec_power message
      else if field_name = ''heart_rate'' then rec_heart_rate message
      else if field_name = ''temperature'' then rec_temperature message
      else None)"

text \<open>
  \<open>_calculate_avg\<close>: \<open>valid_values = [v for v in values if v is not None and v > 0]\<close>,
  then \<open>int(sum(valid_values) / len(valid_values)) if valid_values else 0\<close>.
\<close>

definition calculate_avg :: "int option list \<Rightarrow> error + int" where
  "calculate_avg values =
     (let valid_values = [v. Some v \<leftarrow> values, 0 < v]
      in if valid_values \<noteq> []
         then int_of_truediv (sum_list valid_values) (int (length valid_values))
         else Inr 0)"

text \<open>
  \<open>_append_value\<close>: \<open>values.append(value if value is not None else 0)\<close>; the list is
  returned updated.
\<close>

definition append_value :: "int option list \<Rightarrow> record_message \<Rightarrow> string \<Rightarrow> int option list" where
  "append_value values message field_name =
     (let value = getattr_record message field_name
      in values @ [if value \<noteq> None then value else Some 0])"

text \<open>
  One of the three statements of the session branch,
  \<open>if not message.avg_x and x_values: message.avg_x = _calculate_avg(x_values)\<close>:
  the new value of the field. \<open>not avg\<close> holds for \<open>None\<close> and for \<open>0\<close>.
\<close>

definition update_avg :: "int option \<Rightarrow> int option list \<Rightarrow> error + int option" where
  "update_avg avg values =
     (if (avg = None \<or> avg = Some 0) \<and> values \<noteq> []
      then (case calculate_avg values of Inl e \<Rightarrow> Inl e | Inr a \<Rightarrow> Inr (Some a))
      else Inr avg)"

text \<open>
  The loop of \<open>cleanup_fit_file\<close> over \<open>fit_file.records\<close>. The state is the three
  accumulator lists and the builder (the messages added so far, in order). An exception
  leaves the loop.
\<close>

fun cleanup_loop ::
  "int option list \<Rightarrow> int option list \<Rightarrow> int option list \<Rightarrow> message list \<Rightarrow> message list
    \<Rightarrow> error + message list" where
  "cleanup_loop cadence_values power_values heart_rate_values builder [] = Inr builder"
| "cleanup_loop cadence_values power_values heart_rate_values builder (LapMessage l # records) =
     cleanup_loop cadence_values power_values heart_rate_values builder records"
| "cleanup_loop cadence_values power_values heart_rate_values builder (RecordMessage r # records) =
     (let message = r\<lparr>rec_temperature := None\<rparr>
      in cleanup_loop
           (append_value cadence_values message ''cadence'')
           (append_value power_values message ''power'')
           (append_value heart_rate_values message ''heart_rate'')
           (builder @ [RecordMessage message]) records)"
| "cleanup_loop cadence_values power_values heart_rate_values builder (SessionMessage s # records) =
     (case update_avg (avg_cadence s) cadence_values of
        Inl e \<Rightarrow> Inl e
      | Inr c \<Rightarrow>
        (case update_avg (avg_power s) power_values of
           Inl e \<Rightarrow> Inl e
         | Inr p \<Rightarrow>
           (case update_avg (avg_heart_rate s) heart_rate_values of
              Inl e \<Rightarrow> Inl e
            | Inr h \<Rightarrow>
              cleanup_loop [] [] []
                (builder @ [SessionMessage (s\<lparr>avg_cadence := c, avg_power := p, avg_heart_rate := h\<rparr>)])
                records)))"
| "cleanup_loop cadence_values power_values heart_rate_values builder (OtherMessage other # records) =
     cleanup_loop cadence_values power_values heart_rate_values (builder @ [OtherMessage other]) records"

text \<open>
  The files the transformer touches. The parser and the encoder of the activity format
  are a third-party library: they are parameters. \<open>decode\<close> is \<open>FitFile.from_file\<close>
  (\<open>None\<close> when it raises), \<open>encode\<close> is \<open>builder.build()\<close>. \<open>can_read\<close> is
  \<open>os.access(path, R_OK)\<close>; \<open>can_write_parent\<close> says that the destination directory
  could be created and passes \<open>os.access(parent, W_OK)\<close>; \<open>write_result\<close> is what
  \<open>to_file\<close> does at a path.
\<close>

type_synonym path = string
type_synonym bytes = "nat list"

datatype write_outcome =
    Written
  | WriteFailedRemoved
  | WriteFailedLeft bytes

record fit_io =
  decode :: "bytes \<Rightarrow> message list option"
  encode :: "message list \<Rightarrow> bytes"
  can_read :: "path \<Rightarrow> bool"
  can_write_parent :: "path \<Rightarrow> bool"
  write_result :: "path \<Rightarrow> write_outcome"

text \<open>
  \<open>cleanup_fit_file\<close>: the result flag and the file system afterwards. Every exception
  is caught by the function itself and gives \<open>False\<close>, so its retry decorator never
  retries. When writing fails the function unlinks the destination
  (\<open>WriteFailedRemoved\<close>); when the unlink fails too, the partial file stays
  (\<open>WriteFailedLeft\<close>).
\<close>

definition cleanup_fit_file ::
  "fit_io \<Rightarrow> (path \<rightharpoonup> bytes) \<Rightarrow> path \<Rightarrow> path \<Rightarrow> bool \<times> (path \<rightharpoonup> bytes)" where
  "cleanup_fit_file io fs fit_file_path new_file_path =
     (case fs fit_file_path of
        None \<Rightarrow> (False, fs)
      | Some content \<Rightarrow>
        if \<not> can_read io fit_file_path then (False, fs)
        else if \<not> can_write_parent io new_file_path then (False, fs)
        else (case decode io content of
                None \<Rightarrow> (False, fs)
              | Some records \<Rightarrow>
                (case cleanup_loop [] [] [] [] records of
                   Inl e \<Rightarrow> (False, fs)
                 | Inr messages \<Rightarrow>
                   (case write_result io new_file_path of
                      Written \<Rightarrow> (True, fs(new_file_path \<mapsto> encode io messages))
                    | WriteFailedRemoved \<Rightarrow> (False, fs(new_file_path := None))
                    | WriteFailedLeft partial \<Rightarrow> (False, fs(new_file_path \<mapsto> partial))))))"

text \<open>
  What the loop does to one record that it keeps: a per-sample record loses its
  temperature field and nothing else, a session summary keeps every field but its three
  averages, any other record is the same record. A lap record is never kept.
\<close>

definition kept_as :: "message \<Rightarrow> message \<Rightarrow> bool" where
  "kept_as m m' =
     (case m of
        LapMessage l \<Rightarrow> False
      | RecordMessage r \<Rightarrow> m' = RecordMessage (r\<lparr>rec_temperature := None\<rparr>)
      | SessionMessage s \<Rightarrow>
          (case m' of SessionMessage s' \<Rightarrow> session_other s' = session_other s | _ \<Rightarrow> False)
      | OtherMessage x \<Rightarrow> m' = OtherMessage x)"

section \<open>Application constants: \<open>AppConfig\<close>\<close>

definition MAX_RETRY_ATTEMPTS :: nat where
  "MAX_RETRY_ATTEMPTS = 3"

definition MAX_CONCURRENT_UPLOADS :: int where
  "MAX_CONCURRENT_UPLOADS = 2"

text \<open>
  \<open>CONFIG_FILE\<close> is \<open>Path.home() / ".fituploader_config.json"\<close>; the home directory is
  written \<open>~\<close>.
\<close>

definition CONFIG_FILE :: path where
  "CONFIG_FILE = ''~/.fituploader_config.json''"

section \<open>Paths: \<open>pathlib\<close>\<close>

text \<open>
  \<open>path.name\<close>, the last component, and \<open>path.parent\<close>, the path without it, for a
  path with a directory part.
\<close>

definition path_name :: "path \<Rightarrow> string" where
  "path_name p = rev (takeWhile (\<lambda>c. c \<noteq> CHR ''/'') (rev p))"

definition path_parent :: "path \<Rightarrow> path" where
  "path_parent p = take (length p - length (path_name p) - 1) p"

text \<open>
  \<open>path.suffix\<close>: the part of the name from its last dot on, when that dot is neither
  the first nor the last character of the name; empty otherwise.
\<close>

definition path_suffix :: "path \<Rightarrow> string" where
  "path_suffix p =
     (let name = path_name p;
          after_dot = takeWhile (\<lambda>c. c \<noteq> CHR ''.'') (rev name)
      in if CHR ''.'' \<in> set name \<and> after_dot \<noteq> [] \<and> length after_dot + 1 < length name
         then CHR ''.'' # rev after_dot
         else [])"

text \<open>\<open>path.with_suffix(suffix)\<close>: the suffix of the name replaced.\<close>

definition with_suffix :: "path \<Rightarrow> string \<Rightarrow> path" where
  "with_suffix p suffix = take (length p - length (path_suffix p)) p @ suffix"

section \<open>Settings store: \<open>ConfigManager\<close>\<close>

text \<open>
  The values \<open>json.load\<close> produces. A Python dict keeps its keys in insertion order:
  it is an association list, read with \<open>map_of\<close> and written with \<open>AList.update\<close>
  (in place when the key is there, at the end otherwise). A float is kept as the text of
  its literal; the code only asks for its type.
\<close>

datatype json =
    JNull
  | JBool bool
  | JInt int
  | JFloat string
  | JStr string
  | JList "json list"
  | JObj "(string \<times> json) list"

datatype py_type = PyNone | PyBool | PyInt | PyFloat | PyStr | PyList | PyDict

text \<open>\<open>type(value)\<close>.\<close>

fun type_of :: "json \<Rightarrow> py_type" where
  "type_of JNull = PyNone"
| "type_of (JBool b) = PyBool"
| "type_of (JInt i) = PyInt"
| "type_of (JFloat f) = PyFloat"
| "type_of (JStr s) = PyStr"
| "type_of (JList l) = PyList"
| "type_of (JObj d) = PyDict"

text \<open>
  \<open>isinstance(value, expected_type)\<close>: the value's type is the expected type or a
  subclass of it. Among the types of JSON values the only subclass is \<open>bool\<close>, of
  \<open>int\<close>.
\<close>

definition isinstance :: "json \<Rightarrow> py_type \<Rightarrow> bool" where
  "isinstance v expected_type =
     (type_of v = expected_type \<or> (type_of v = PyBool \<and> expected_type = PyInt))"

type_synonym config = "(string \<times> json) list"

definition get_default_config :: config where
  "get_default_config =
     [(''username'', JStr ''''),
      (''backup_path'', JStr ''''),
      (''processed_files'', JObj []),
      (''auto_select_new'', JBool True),
      (''max_concurrent_uploads'', JInt MAX_CONCURRENT_UPLOADS),
      (''auto_save_interval'', JInt 30),
      (''ui_theme'', JStr ''default''),
      (''log_level'', JStr ''INFO'')]"

text \<open>
  The loop of \<open>_validate_config\<close> over \<open>config.items()\<close>. The state is the dict
  \<open>validated\<close> and the keys for which a warning was logged.
\<close>

fun validate_loop :: "(string \<times> json) list \<Rightarrow> config \<Rightarrow> string list \<Rightarrow> config \<times> string list" where
  "validate_loop [] validated warnings = (validated, warnings)"
| "validate_loop ((key, v) # items) validated warnings =
     (case map_of get_default_config key of
        None \<Rightarrow> validate_loop items validated warnings
      | Some default_value \<Rightarrow>
          if isinstance v (type_of default_value)
          then validate_loop items (AList.update key v validated) warnings
          else validate_loop items validated (warnings @ [key]))"

text \<open>
  \<open>_validate_config\<close>. The loaded document is whatever JSON value the file holds;
  \<open>config.items()\<close> raises AttributeError on anything but a dict.
\<close>

definition validate_config :: "json \<Rightarrow> error + config \<times> string list" where
  "validate_config loaded_config =
     (case loaded_config of
        JObj items \<Rightarrow> Inr (validate_loop items get_default_config [])
      | _ \<Rightarrow> Inl AttributeError)"

text \<open>
  What \<open>load\<close> meets at the settings file. \<open>CONFIG_FILE.exists()\<close> raises an OSError
  (for a directory that may not be searched, say), or says that the file is missing, or
  says that it is there; then opening or reading raises OSError, or the bytes are not
  UTF-8 (UnicodeDecodeError), or the text is not JSON (JSONDecodeError), or the file
  holds a document.
\<close>

datatype settings_file =
    ExistsRaisesOSError
  | Missing
  | OpenRaisesOSError
  | RaisesUnicodeDecodeError
  | RaisesJSONDecodeError
  | Document json

text \<open>
  \<open>load\<close>: the new \<open>_config\<close> and the warnings logged. The test
  \<open>CONFIG_FILE.exists()\<close> is outside the \<open>try\<close>, so what it raises leaves \<open>load\<close>.
  The handler catches \<open>(json.JSONDecodeError, OSError)\<close> only: a UnicodeDecodeError and
  the AttributeError of \<open>_validate_config\<close> leave \<open>load\<close> as well.
\<close>

definition load :: "settings_file \<Rightarrow> error + config \<times> string list" where
  "load file =
     (case file of
        ExistsRaisesOSError \<Rightarrow> Inl OSError
      | Missing \<Rightarrow> Inr (get_default_config, [])
      | OpenRaisesOSError \<Rightarrow> Inr (get_default_config, [])
      | RaisesJSONDecodeError \<Rightarrow> Inr (get_default_config, [])
      | RaisesUnicodeDecodeError \<Rightarrow> Inl UnicodeDecodeError
      | Document loaded_config \<Rightarrow> validate_config loaded_config)"

text \<open>
  The state of a \<open>ConfigManager\<close>: the dict, the dirty flag, and whether the
  debounced save timer is pending.
\<close>

record config_manager =
  config :: config
  dirty :: bool
  auto_save_timer :: bool

text \<open>\<open>get(key, default)\<close>.\<close>

definition config_get :: "config_manager \<Rightarrow> string \<Rightarrow> json \<Rightarrow> json" where
  "config_get cm key default_value =
     (case map_of (config cm) key of None \<Rightarrow> default_value | Some v \<Rightarrow> v)"

text \<open>
  \<open>set(key, value)\<close>: nothing happens when \<open>self._config.get(key)\<close> equals the value
  (\<open>None\<close> for a key that is not there).
\<close>

definition config_set :: "config_manager \<Rightarrow> string \<Rightarrow> json \<Rightarrow> config_manager" where
  "config_set cm key v =
     (if (case map_of (config cm) key of None \<Rightarrow> JNull | Some old \<Rightarrow> old) \<noteq> v
      then cm\<lparr>config := AList.update key v (config cm),
              dirty := True,
              auto_save_timer :=
                (if key \<in> {''username'', ''backup_path'', ''processed_files''} then True
                 else auto_save_timer cm)\<rparr>
      else cm)"

text \<open>
  The operations of \<open>save\<close> on the files, one for each statement that touches the file
  system: \<open>mkdir\<close>, opening a file for writing (which creates or empties it), writing
  a chunk of text at its end, and \<open>Path.replace\<close>, which renames a file over another
  in one step.
\<close>

datatype fs_op =
    Mkdir path
  | OpenWrite path
  | WriteChunk path string
  | Replace path path

fun apply_op :: "fs_op \<Rightarrow> (path \<rightharpoonup> string) \<Rightarrow> (path \<rightharpoonup> string)" where
  "apply_op (Mkdir d) fs = fs"
| "apply_op (OpenWrite p) fs = fs(p \<mapsto> [])"
| "apply_op (WriteChunk p chunk) fs =
     fs(p \<mapsto> (case fs p of None \<Rightarrow> chunk | Some content \<Rightarrow> content @ chunk))"
| "apply_op (Replace src dst) fs =
     (case fs src of None \<Rightarrow> fs | Some content \<Rightarrow> (fs(src := None))(dst \<mapsto> content))"

text \<open>
  The body of the \<open>try\<close> in \<open>save\<close>:
  \<open>temp_file = CONFIG_FILE.with_suffix('.tmp')\<close>, the \<open>mkdir\<close> of the parent, the
  temporary file opened and written by \<open>json.dump\<close> chunk by chunk, and
  \<open>temp_file.replace(CONFIG_FILE)\<close>.
\<close>

definition temp_file :: path where
  "temp_file = with_suffix CONFIG_FILE ''.tmp''"

definition save_ops :: "string list \<Rightarrow> fs_op list" where
  "save_ops chunks =
     [Mkdir (path_parent CONFIG_FILE), OpenWrite temp_file] @
     map (WriteChunk temp_file) chunks @
     [Replace temp_file CONFIG_FILE]"

text \<open>
  \<open>save(force)\<close>. \<open>dumps\<close> gives the chunks that \<open>json.dump\<close> writes, as fine
  as the writes that reach the disk. \<open>failure\<close>
  is \<open>Some k\<close> when the run is cut short after \<open>k\<close> of the operations, by an
  exception in the next one (caught and logged by \<open>save\<close>: \<open>_dirty\<close> stays as it is)
  or by the death of the process; it is \<open>None\<close> when nothing fails.
\<close>

definition save ::
  "(config \<Rightarrow> string list) \<Rightarrow> bool \<Rightarrow> nat option \<Rightarrow> config_manager \<Rightarrow> (path \<rightharpoonup> string)
    \<Rightarrow> config_manager \<times> (path \<rightharpoonup> string)" where
  "save dumps force failure cm fs =
     (if \<not> dirty cm \<and> \<not> force then (cm, fs)
      else
        let ops = save_ops (dumps (config cm))
        in (case failure of
              None \<Rightarrow> (cm\<lparr>dirty := False\<rparr>, fold apply_op ops fs)
            | Some k \<Rightarrow>
                if k < length ops then (cm, fold apply_op (take k ops) fs)
                else (cm\<lparr>dirty := False\<rparr>, fold apply_op ops fs)))"


section \<open>Processed-set tracker: \<open>FitFileManager\<close>\<close>

record file_info =
  name :: string
  path :: path
  size :: string
  date :: string
  source :: string
  processed :: bool
  modified_time :: string
  file_hash :: string
  size_bytes :: int

text \<open>\<open>str(n)\<close> for an integer: its decimal digits, with a minus sign when negative.\<close>

fun str_nat :: "nat \<Rightarrow> string" where
  "str_nat n =
     (if n < 10 then [''0123456789'' ! n]
      else str_nat (n div 10) @ [''0123456789'' ! (n mod 10)])"

declare str_nat.simps [simp del]

definition str_int :: "int \<Rightarrow> string" where
  "str_int i = (if i < 0 then CHR ''-'' # str_nat (nat (- i)) else str_nat (nat i))"

text \<open>The ledger key \<open>f"{file_info.name}_{file_info.size_bytes}"\<close>.\<close>

definition file_key :: "file_info \<Rightarrow> string" where
  "file_key info = name info @ ''_'' @ str_int (size_bytes info)"

text \<open>
  The test of the hash loop,
  \<open>isinstance(data, dict) and data.get('hash') == file_info.file_hash\<close>.
\<close>

definition hash_matches :: "file_info \<Rightarrow> json \<Rightarrow> bool" where
  "hash_matches info data =
     (case data of
        JObj d \<Rightarrow> map_of d ''hash'' = Some (JStr (file_hash info))
      | _ \<Rightarrow> False)"

text \<open>
  \<open>is_file_processed\<close>. After \<open>load\<close> the value under \<open>processed_files\<close> is a dict;
  for any other value \<open>.items()\<close> raises AttributeError, and \<open>file_key in\<close> is a
  substring test on a string, a membership test on a list, and a TypeError otherwise.
\<close>

definition is_file_processed :: "config_manager \<Rightarrow> file_info \<Rightarrow> error + bool" where
  "is_file_processed cm info =
     (case config_get cm ''processed_files'' (JObj []) of
        JObj processed_info \<Rightarrow>
          if file_hash info \<noteq> [] \<and> (\<exists>(key, data) \<in> set processed_info. hash_matches info data)
          then Inr True
          else Inr (file_key info \<in> fst ` set processed_info)
      | JStr s \<Rightarrow>
          if file_hash info \<noteq> [] then Inl AttributeError else Inr (str_in (file_key info) s)
      | JList l \<Rightarrow>
          if file_hash info \<noteq> [] then Inl AttributeError else Inr (JStr (file_key info) \<in> set l)
      | _ \<Rightarrow>
          if file_hash info \<noteq> [] then Inl AttributeError else Inl TypeError)"

text \<open>
  \<open>mark_file_processed\<close>; \<open>now\<close> is \<open>datetime.now().isoformat()\<close>. \<open>get\<close> returns
  the dict that the configuration holds, not a copy, so the item assignment changes the
  configuration in place, and the \<open>set\<close> that follows finds the value already there.
  Only when the key is missing does \<open>get\<close> return a fresh dict, which \<open>set\<close> then
  stores. Item assignment on anything but a dict raises TypeError.
\<close>

definition mark_file_processed :: "string \<Rightarrow> config_manager \<Rightarrow> file_info \<Rightarrow> error + config_manager" where
  "mark_file_processed now cm info =
     (case config_get cm ''processed_files'' (JObj []) of
        JObj processed_info \<Rightarrow>
          let processed_info' =
                AList.update (file_key info)
                  (JObj [(''timestamp'', JStr now),
                         (''hash'', JStr (file_hash info)),
                         (''size'', JInt (size_bytes info)),
                         (''path'', JStr (path info))])
                  processed_info;
              cm' = (if ''processed_files'' \<in> fst ` set (config cm)
                     then cm\<lparr>config := AList.update ''processed_files'' (JObj processed_info') (config cm)\<rparr>
                     else cm)
          in Inr (config_set cm' ''processed_files'' (JObj processed_info'))
      | _ \<Rightarrow> Inl TypeError)"


section \<open>Upload dispatcher: \<open>GarminUploader\<close>\<close>

text \<open>
  What one pass through the body of the retry loop meets: \<open>refresh_session()\<close> is
  false; the upload returns; or an exception is raised, of which the code reads
  \<open>error_msg = str(e).lower()\<close>.
\<close>

datatype attempt_outcome =
    SessionExpired
  | Uploaded
  | Raised string

text \<open>
  The world around a batch: the files on disk, the outcome of every attempt on every
  file (the remote service and the session state shared with the other workers), what
  \<open>scan_files_async()\<close> returns when a file's upload has completed, and the clock then.
\<close>

record upload_env =
  file_exists :: "path \<Rightarrow> bool"
  file_readable :: "path \<Rightarrow> bool"
  attempt_outcome :: "path \<Rightarrow> nat \<Rightarrow> attempt_outcome"
  scan_files_async :: "path \<Rightarrow> file_info list"
  clock :: "path \<Rightarrow> string"

text \<open>
  What \<open>_upload_file_with_retry\<close> did besides returning: the uploads it attempted,
  the seconds it slept, in order, and whether it set \<open>auth_manager._is_connected\<close> to
  false.
\<close>

record upload_trace =
  attempts_made :: nat
  sleeps :: "nat list"
  invalidated :: bool

text \<open>The tests on \<open>error_msg\<close>, in the order of the source.\<close>

definition duplicate_error :: "string \<Rightarrow> bool" where
  "duplicate_error error_msg = (str_in ''409'' error_msg \<or> str_in ''duplicate'' error_msg)"

definition unauthorized_error :: "string \<Rightarrow> bool" where
  "unauthorized_error error_msg = (str_in ''401'' error_msg \<or> str_in ''unauthorized'' error_msg)"

definition rate_limit_error :: "string \<Rightarrow> bool" where
  "rate_limit_error error_msg = (str_in ''429'' error_msg \<or> str_in ''rate limit'' error_msg)"

definition network_error :: "string \<Rightarrow> bool" where
  "network_error error_msg =
     (\<exists>keyword \<in> set [''timeout'', ''connection'', ''network'']. str_in keyword error_msg)"

text \<open>
  The loop \<open>for attempt in range(max_retries)\<close>, over the attempt numbers still to
  come. \<open>continue\<close> and the end of the body both go on with the next attempt number;
  after the last one the function returns \<open>(False, False)\<close>.
\<close>

fun retry_loop ::
  "(nat \<Rightarrow> attempt_outcome) \<Rightarrow> nat \<Rightarrow> nat list \<Rightarrow> upload_trace \<Rightarrow> (bool \<times> bool) \<times> upload_trace" where
  "retry_loop outcome max_retries [] trace = ((False, False), trace)"
| "retry_loop outcome max_retries (attempt # rest) trace =
     (case outcome attempt of
        SessionExpired \<Rightarrow> ((False, False), trace)
      | Uploaded \<Rightarrow> ((True, False), trace\<lparr>attempts_made := attempts_made trace + 1\<rparr>)
      | Raised error_msg \<Rightarrow>
          let trace = trace\<lparr>attempts_made := attempts_made trace + 1\<rparr>
          in if duplicate_error error_msg then ((True, True), trace)
             else if unauthorized_error error_msg then ((False, False), trace\<lparr>invalidated := True\<rparr>)
             else if rate_limit_error error_msg
               then retry_loop outcome max_retries rest
                      (trace\<lparr>sleeps := sleeps trace @ [min (2 ^ attempt * 2) 60]\<rparr>)
             else if network_error error_msg \<and> int attempt < int max_retries - 1
               then retry_loop outcome max_retries rest
                      (trace\<lparr>sleeps := sleeps trace @ [min (2 ^ attempt) 30]\<rparr>)
             else if int attempt < int max_retries - 1
               then retry_loop outcome max_retries rest
                      (trace\<lparr>sleeps := sleeps trace @ [2 ^ attempt]\<rparr>)
             else retry_loop outcome max_retries rest trace)"

text \<open>\<open>_upload_file_with_retry(file_path, max_retries)\<close>: \<open>(success, is_duplicate)\<close> and the trace.\<close>

definition upload_file_with_retry ::
  "upload_env \<Rightarrow> path \<Rightarrow> nat \<Rightarrow> (bool \<times> bool) \<times> upload_trace" where
  "upload_file_with_retry env file_path max_retries =
     (let trace = \<lparr>attempts_made = 0, sleeps = [], invalidated = False\<rparr>
      in if \<not> file_exists env file_path then ((False, False), trace)
         else if \<not> file_readable env file_path then ((False, False), trace)
         else retry_loop (attempt_outcome env file_path) max_retries [0..<max_retries] trace)"

text \<open>
  The state of \<open>upload_files\<close>: the statistics, the result dict, and the settings store
  that holds the ledger.
\<close>

record upload_stats =
  total :: nat
  success :: nat
  failed :: nat
  duplicates :: nat

record uploader_state =
  stats :: upload_stats
  results :: "(path \<times> bool) list"
  settings :: config_manager

text \<open>
  The body of the loop over the completed uploads, for the file \<open>file_path\<close> whose
  upload returned \<open>(success, is_duplicate)\<close>. The ledger is written only when the scan
  lists a record with this very path. An exception raised while marking is caught: the
  file is then counted as failed as well.
\<close>

definition handle_completed ::
  "upload_env \<Rightarrow> path \<Rightarrow> bool \<times> bool \<Rightarrow> uploader_state \<Rightarrow> uploader_state" where
  "handle_completed env file_path result st =
     (let st = st\<lparr>results := AList.update file_path (fst result) (results st)\<rparr>
      in if fst result then
           let st = (if snd result
                     then st\<lparr>stats := (stats st)\<lparr>duplicates := duplicates (stats st) + 1\<rparr>\<rparr>
                     else st\<lparr>stats := (stats st)\<lparr>success := success (stats st) + 1\<rparr>\<rparr>)
           in (case find (\<lambda>info. path info = file_path) (scan_files_async env file_path) of
                 None \<Rightarrow> st
               | Some info \<Rightarrow>
                   (case mark_file_processed (clock env file_path) (settings st) info of
                      Inr cm \<Rightarrow> st\<lparr>settings := cm\<rparr>
                    | Inl e \<Rightarrow>
                        st\<lparr>results := AList.update file_path False (results st),
                           stats := (stats st)\<lparr>failed := failed (stats st) + 1\<rparr>\<rparr>))
         else st\<lparr>stats := (stats st)\<lparr>failed := failed (stats st) + 1\<rparr>\<rparr>)"

text \<open>
  \<open>upload_files\<close>. The workers run \<open>_upload_file_with_retry\<close> with the default
  \<open>max_retries\<close>; the loop takes the uploads as they complete, so \<open>completed\<close> is
  \<open>files\<close> in the order of completion. An empty batch returns at once.
\<close>

definition upload_files ::
  "upload_env \<Rightarrow> path list \<Rightarrow> path list \<Rightarrow> uploader_state \<Rightarrow> uploader_state" where
  "upload_files env files completed st =
     (if files = [] then st\<lparr>results := []\<rparr>
      else fold
             (\<lambda>file_path. handle_completed env file_path
                 (fst (upload_file_with_retry env file_path MAX_RETRY_ATTEMPTS)))
             completed
             (st\<lparr>stats := \<lparr>total = length files, success = 0, failed = 0, duplicates = 0\<rparr>,
                 results := []\<rparr>))"


section \<open>Properties of the content transformer\<close>

subsection \<open>The average helper\<close>

lemma int_of_truediv_pos:
  "0 \<le> a \<Longrightarrow> 0 < b \<Longrightarrow> int_of_truediv a b = Inr (a div b)"
  by (cases "a = 0") (simp_all add: int_of_truediv_def)

lemma sum_list_pos_nonneg: "0 \<le> sum_list [v. Some v \<leftarrow> values, (0::int) < v]"
  by (induction "values") (auto split: option.splits)

lemma calculate_avg_eq:
  "calculate_avg values =
     Inr (if [v. Some v \<leftarrow> values, 0 < v] = [] then 0
          else sum_list [v. Some v \<leftarrow> values, 0 < v] div int (length [v. Some v \<leftarrow> values, 0 < v]))"
  unfolding calculate_avg_def Let_def
  using sum_list_pos_nonneg [of "values"]
  by (simp add: int_of_truediv_pos)


lemma positives_drop_zero:
  "[v. Some v \<leftarrow> [x \<leftarrow> values. x \<noteq> Some 0], (0::int) < v] = [v. Some v \<leftarrow> values, 0 < v]"
  by (induction "values") (auto split: option.splits)

lemma trunc_mean_bounds:
  fixes s l :: int
  assumes "0 < l"
  shows "s div l * l \<le> s \<and> s < (s div l + 1) * l"
proof -
  have split: "s = s div l * l + s mod l" by simp
  have lo: "0 \<le> s mod l" and hi: "s mod l < l" using assms by simp_all
  have expand: "(s div l + 1) * l = s div l * l + l" by (simp add: distrib_right)
  show ?thesis using split lo hi expand by linarith
qed

text \<open>
  Claim C10. \<open>_calculate_avg\<close> never raises, for any list of values: it returns 0 when
  no entry is strictly positive (in particular for the empty list), and otherwise the
  mean of the strictly positive entries truncated to an integer, that is the \<open>n\<close> with
  \<open>n * count \<le> sum < (n + 1) * count\<close>. Entries equal to zero, such as the zeros
  substituted for missing samples, do not change the result.
\<close>

theorem calculate_avg_total:
  "\<exists>n. calculate_avg values = Inr n \<and>
     ([v. Some v \<leftarrow> values, 0 < v] = [] \<longrightarrow> n = 0) \<and>
     ([v. Some v \<leftarrow> values, 0 < v] \<noteq> [] \<longrightarrow>
        n * int (length [v. Some v \<leftarrow> values, 0 < v]) \<le> sum_list [v. Some v \<leftarrow> values, 0 < v] \<and>
        sum_list [v. Some v \<leftarrow> values, 0 < v] < (n + 1) * int (length [v. Some v \<leftarrow> values, 0 < v])) \<and>
     calculate_avg [x \<leftarrow> values. x \<noteq> Some 0] = calculate_avg values"
proof -
  define pos where "pos = [v. Some v \<leftarrow> values, 0 < v]"
  define n where "n = (if pos = [] then 0 else sum_list pos div int (length pos))"
  have eq: "calculate_avg values = Inr n"
    unfolding n_def pos_def by (rule calculate_avg_eq)
  have zero: "calculate_avg [x \<leftarrow> values. x \<noteq> Some 0] = calculate_avg values"
    by (simp only: calculate_avg_def positives_drop_zero)
  have none: "pos = [] \<longrightarrow> n = 0"
    by (simp add: n_def)
  have bounds: "pos \<noteq> [] \<longrightarrow> n * int (length pos) \<le> sum_list pos \<and> sum_list pos < (n + 1) * int (length pos)"
  proof
    assume ne: "pos \<noteq> []"
    then have "0 < int (length pos)" by simp
    from trunc_mean_bounds [OF this, of "sum_list pos"] ne
    show "n * int (length pos) \<le> sum_list pos \<and> sum_list pos < (n + 1) * int (length pos)"
      by (simp add: n_def)
  qed
  from eq none bounds zero show ?thesis
    unfolding pos_def by blast
qed

theorem calculate_avg_total_witness:
  "calculate_avg [Some 100, Some 150, Some 200, Some 0] = Inr 150 \<and>
   calculate_avg [Some 0, None] = Inr 0"
  using calculate_avg_total [of "[Some 100, Some 150, Some 200, Some 0]"]
        calculate_avg_total [of "[Some 0, None]"]
  by (simp add: calculate_avg_def int_of_truediv_def)


subsection \<open>The loop over the records\<close>

lemma calculate_avg_never_raises: "\<exists>n. calculate_avg values = Inr n"
  by (simp only: calculate_avg_eq) blast

lemma update_avg_subst:
  assumes "avg = None \<or> avg = Some 0" and "values \<noteq> []" and "calculate_avg values = Inr n"
  shows "update_avg avg values = Inr (Some n)"
  using assms by (auto simp: update_avg_def)

lemma update_avg_keep:
  assumes "\<not> ((avg = None \<or> avg = Some 0) \<and> values \<noteq> [])"
  shows "update_avg avg values = Inr avg"
  using assms by (auto simp: update_avg_def)

lemma update_avg_total: "\<exists>v. update_avg avg values = Inr v"
proof (cases "(avg = None \<or> avg = Some 0) \<and> values \<noteq> []")
  case True
  obtain n where "calculate_avg values = Inr n" using calculate_avg_never_raises by blast
  with True show ?thesis by (auto simp: update_avg_def)
next
  case False
  then show ?thesis by (auto simp: update_avg_def)
qed

lemma cleanup_loop_total:
  "\<exists>out. cleanup_loop c p h b records = Inr out"
proof (induction records arbitrary: c p h b)
  case Nil
  show ?case by simp
next
  case (Cons m records)
  show ?case
  proof (cases m)
    case (SessionMessage s)
    obtain c' where c': "update_avg (avg_cadence s) c = Inr c'" using update_avg_total by blast
    obtain p' where p': "update_avg (avg_power s) p = Inr p'" using update_avg_total by blast
    obtain h' where h': "update_avg (avg_heart_rate s) h = Inr h'" using update_avg_total by blast
    show ?thesis using SessionMessage c' p' h' Cons.IH by simp
  qed (simp_all add: Cons.IH Let_def)
qed

lemma cleanup_loop_segment:
  assumes "\<forall>m \<in> set mid. \<not> is_SessionMessage m"
  shows "cleanup_loop c p h b (mid @ rest) =
         cleanup_loop
           (c @ [if rec_cadence r \<noteq> None then rec_cadence r else Some 0. RecordMessage r \<leftarrow> mid])
           (p @ [if rec_power r \<noteq> None then rec_power r else Some 0. RecordMessage r \<leftarrow> mid])
           (h @ [if rec_heart_rate r \<noteq> None then rec_heart_rate r else Some 0. RecordMessage r \<leftarrow> mid])
           (b @ concat (map (\<lambda>m. case m of LapMessage l \<Rightarrow> []
                                  | RecordMessage r \<Rightarrow> [RecordMessage (r\<lparr>rec_temperature := None\<rparr>)]
                                  | _ \<Rightarrow> [m]) mid))
           rest"
  using assms
proof (induction mid arbitrary: c p h b)
  case Nil
  show ?case by simp
next
  case (Cons m mid)
  from Cons.prems have rest_ok: "\<forall>m \<in> set mid. \<not> is_SessionMessage m" by simp
  show ?case
  proof (cases m)
    case (SessionMessage s)
    with Cons.prems show ?thesis by simp
  qed (simp_all add: Cons.IH [OF rest_ok] Let_def append_value_def getattr_record_def)
qed

lemma cleanup_loop_after_session:
  "cleanup_loop c p h b (pre @ SessionMessage s # rest) =
     (case cleanup_loop c p h b (pre @ [SessionMessage s]) of
        Inl e \<Rightarrow> Inl e
      | Inr b' \<Rightarrow> cleanup_loop [] [] [] b' rest)"
proof (induction pre arbitrary: c p h b)
  case Nil
  show ?case by (simp split: sum.splits)
next
  case (Cons m pre)
  show ?case
    by (cases m) (simp_all add: Cons.IH Let_def split: sum.splits)
qed

subsection \<open>Order and pass-through\<close>

lemma kept_as_not_lap: "kept_as m m' \<Longrightarrow> \<not> is_LapMessage m'"
  by (cases m; cases m') (simp_all add: kept_as_def)

lemma kept_as_others:
  assumes "list_all2 kept_as xs ys"
  shows "[m' \<leftarrow> ys. is_OtherMessage m'] = [m \<leftarrow> xs. is_OtherMessage m]"
  using assms
proof (induction rule: list_all2_induct)
  case Nil
  show ?case by simp
next
  case (Cons x xs y ys)
  from Cons.hyps(1) have "is_OtherMessage y = is_OtherMessage x" and "is_OtherMessage x \<longrightarrow> y = x"
    by (cases x; cases y; simp add: kept_as_def)+
  with Cons.IH show ?case by auto
qed

lemma cleanup_loop_kept:
  assumes "cleanup_loop c p h b records = Inr out"
  shows "\<exists>out'. out = b @ out' \<and> list_all2 kept_as [m \<leftarrow> records. \<not> is_LapMessage m] out'"
  using assms
proof (induction records arbitrary: c p h b out)
  case Nil
  then show ?case by simp
next
  case (Cons m records)
  have step: "\<exists>out'. out = b @ out' \<and> list_all2 kept_as [m \<leftarrow> m # records. \<not> is_LapMessage m] out'"
    if run: "cleanup_loop c' p' h' (b @ [m']) records = Inr out"
      and kept: "kept_as m m'" and nolap: "\<not> is_LapMessage m"
    for c' p' h' m'
  proof -
    from Cons.IH [OF run] obtain out'' where
      out: "out = (b @ [m']) @ out''" and
      rest: "list_all2 kept_as [m \<leftarrow> records. \<not> is_LapMessage m] out''"
      by blast
    from kept rest have "list_all2 kept_as (m # [m \<leftarrow> records. \<not> is_LapMessage m]) (m' # out'')"
      by simp
    with nolap have "list_all2 kept_as [m \<leftarrow> m # records. \<not> is_LapMessage m] (m' # out'')"
      by simp
    moreover from out have "out = b @ (m' # out'')" by simp
    ultimately show ?thesis by blast
  qed
  show ?case
  proof (cases m)
    case (LapMessage l)
    with Cons.prems have "cleanup_loop c p h b records = Inr out" by simp
    from Cons.IH [OF this] LapMessage show ?thesis by simp
  next
    case (RecordMessage r)
    with Cons.prems have "cleanup_loop
           (append_value c (r\<lparr>rec_temperature := None\<rparr>) ''cadence'')
           (append_value p (r\<lparr>rec_temperature := None\<rparr>) ''power'')
           (append_value h (r\<lparr>rec_temperature := None\<rparr>) ''heart_rate'')
           (b @ [RecordMessage (r\<lparr>rec_temperature := None\<rparr>)]) records = Inr out"
      by (simp add: Let_def)
    moreover have "kept_as m (RecordMessage (r\<lparr>rec_temperature := None\<rparr>))"
      by (simp add: kept_as_def RecordMessage)
    moreover have "\<not> is_LapMessage m" by (simp add: RecordMessage)
    ultimately show ?thesis by (rule step)
  next
    case (SessionMessage s)
    obtain ac where ac: "update_avg (avg_cadence s) c = Inr ac" using update_avg_total by blast
    obtain ap where ap: "update_avg (avg_power s) p = Inr ap" using update_avg_total by blast
    obtain ah where ah: "update_avg (avg_heart_rate s) h = Inr ah" using update_avg_total by blast
    from Cons.prems SessionMessage ac ap ah have "cleanup_loop [] [] []
        (b @ [SessionMessage (s\<lparr>avg_cadence := ac, avg_power := ap, avg_heart_rate := ah\<rparr>)]) records = Inr out"
      by simp
    moreover have "kept_as m (SessionMessage (s\<lparr>avg_cadence := ac, avg_power := ap, avg_heart_rate := ah\<rparr>))"
      by (simp add: kept_as_def SessionMessage)
    moreover have "\<not> is_LapMessage m" by (simp add: SessionMessage)
    ultimately show ?thesis by (rule step)
  next
    case (OtherMessage x)
    with Cons.prems have "cleanup_loop c p h (b @ [OtherMessage x]) records = Inr out" by simp
    moreover have "kept_as m (OtherMessage x)"
      by (simp add: kept_as_def OtherMessage)
    moreover have "\<not> is_LapMessage m" by (simp add: OtherMessage)
    ultimately show ?thesis by (rule step)
  qed
qed

lemma cleanup_loop_result:
  "\<exists>messages. cleanup_loop [] [] [] [] records = Inr messages \<and>
     list_all2 kept_as [m \<leftarrow> records. \<not> is_LapMessage m] messages"
proof -
  obtain out where out: "cleanup_loop [] [] [] [] records = Inr out"
    using cleanup_loop_total by blast
  from cleanup_loop_kept [OF out] show ?thesis using out by simp
qed


subsection \<open>Segments and session summaries\<close>

lemma update_avg_with:
  assumes "calculate_avg values = Inr n"
  shows "update_avg avg values =
     Inr (if (avg = None \<or> avg = Some 0) \<and> values \<noteq> [] then Some n else avg)"
  using assms by (auto simp: update_avg_def)

lemma update_avg_value:
  "update_avg avg values =
     Inr (if (avg = None \<or> avg = Some 0) \<and> values \<noteq> []
          then Some (if [v. Some v \<leftarrow> values, 0 < v] = [] then 0
                     else sum_list [v. Some v \<leftarrow> values, 0 < v] div
                          int (length [v. Some v \<leftarrow> values, 0 < v]))
          else avg)"
  by (rule update_avg_with [OF calculate_avg_eq])

lemma cleanup_loop_builder:
  assumes "cleanup_loop c p h b records = Inr out"
  shows "cleanup_loop c p h (b0 @ b) records = Inr (b0 @ out)"
  using assms
proof (induction records arbitrary: c p h b)
  case Nil
  then show ?case by simp
next
  case (Cons m records)
  show ?case
  proof (cases m)
    case (LapMessage l)
    with Cons show ?thesis by simp
  next
    case (RecordMessage r)
    with Cons.prems Cons.IH show ?thesis by (simp add: Let_def)
  next
    case (SessionMessage s)
    obtain ac where ac: "update_avg (avg_cadence s) c = Inr ac" using update_avg_total by blast
    obtain ap where ap: "update_avg (avg_power s) p = Inr ap" using update_avg_total by blast
    obtain ah where ah: "update_avg (avg_heart_rate s) h = Inr ah" using update_avg_total by blast
    from Cons.prems SessionMessage ac ap ah Cons.IH show ?thesis by simp
  next
    case (OtherMessage x)
    with Cons.prems Cons.IH show ?thesis by simp
  qed
qed

lemma kept_out_length:
  "length (concat (map (\<lambda>m. case m of LapMessage l \<Rightarrow> []
                                  | RecordMessage r \<Rightarrow> [RecordMessage (r\<lparr>rec_temperature := None\<rparr>)]
                                  | _ \<Rightarrow> [m]) mid))
   = length [m \<leftarrow> mid. \<not> is_LapMessage m]"
proof (induction mid)
  case Nil
  show ?case by simp
next
  case (Cons m mid)
  then show ?case by (cases m) simp_all
qed

lemma segment_session_rest:
  assumes seg: "\<forall>m \<in> set mid. \<not> is_SessionMessage m"
    and c': "update_avg (avg_cadence s)
       [if rec_cadence r \<noteq> None then rec_cadence r else Some 0. RecordMessage r \<leftarrow> mid] = Inr c'"
    and p': "update_avg (avg_power s)
       [if rec_power r \<noteq> None then rec_power r else Some 0. RecordMessage r \<leftarrow> mid] = Inr p'"
    and h': "update_avg (avg_heart_rate s)
       [if rec_heart_rate r \<noteq> None then rec_heart_rate r else Some 0. RecordMessage r \<leftarrow> mid] = Inr h'"
    and post: "cleanup_loop [] [] [] [] post = Inr out_post"
  shows "\<exists>out_mid. length out_mid = length [m \<leftarrow> mid. \<not> is_LapMessage m] \<and>
     cleanup_loop [] [] [] b (mid @ SessionMessage s # post) =
       Inr (b @ out_mid @
            SessionMessage (s\<lparr>avg_cadence := c', avg_power := p', avg_heart_rate := h'\<rparr>) # out_post)"
proof -
  let ?out_mid = "concat (map (\<lambda>m. case m of LapMessage l \<Rightarrow> []
                                  | RecordMessage r \<Rightarrow> [RecordMessage (r\<lparr>rec_temperature := None\<rparr>)]
                                  | _ \<Rightarrow> [m]) mid)"
  let ?s' = "s\<lparr>avg_cadence := c', avg_power := p', avg_heart_rate := h'\<rparr>"
  have "cleanup_loop [] [] [] b (mid @ SessionMessage s # post) =
        cleanup_loop [] [] [] ((b @ ?out_mid) @ [SessionMessage ?s']) post"
    by (simp only: cleanup_loop_segment [OF seg] append_Nil cleanup_loop.simps c' p' h' sum.case)
  also have "\<dots> = cleanup_loop [] [] [] (((b @ ?out_mid) @ [SessionMessage ?s']) @ []) post"
    by simp
  also have "\<dots> = Inr (((b @ ?out_mid) @ [SessionMessage ?s']) @ out_post)"
    using post by (rule cleanup_loop_builder)
  finally have "cleanup_loop [] [] [] b (mid @ SessionMessage s # post) =
       Inr (b @ ?out_mid @ SessionMessage ?s' # out_post)" by simp
  with kept_out_length [of mid] show ?thesis by blast
qed

lemma prefix_builder:
  assumes "pre = [] \<or> is_SessionMessage (last pre)"
  shows "\<exists>b. length b = length [m \<leftarrow> pre. \<not> is_LapMessage m] \<and>
             cleanup_loop [] [] [] [] (pre @ rest) = cleanup_loop [] [] [] b rest"
proof (cases "pre = []")
  case True
  then show ?thesis by (intro exI [of _ "[]"]) simp
next
  case False
  with assms have "is_SessionMessage (last pre)" by simp
  then obtain s0 where "last pre = SessionMessage s0" by (cases "last pre") simp_all
  with False have "butlast pre @ [SessionMessage s0] = pre"
    using append_butlast_last_id [of pre] by simp
  then have "\<exists>pre'. pre = pre' @ [SessionMessage s0]"
    by (intro exI [of _ "butlast pre"]) simp
  then obtain pre' where pre: "pre = pre' @ [SessionMessage s0]" ..
  obtain b where b: "cleanup_loop [] [] [] [] (pre' @ [SessionMessage s0]) = Inr b"
    using cleanup_loop_total by blast
  from cleanup_loop_kept [OF b] have "list_all2 kept_as [m \<leftarrow> pre' @ [SessionMessage s0]. \<not> is_LapMessage m] b"
    by simp
  then have len: "length b = length [m \<leftarrow> pre. \<not> is_LapMessage m]"
    unfolding pre by (rule list_all2_lengthD [symmetric])
  have "cleanup_loop [] [] [] [] (pre' @ SessionMessage s0 # rest) = cleanup_loop [] [] [] b rest"
    using cleanup_loop_after_session [of "[]" "[]" "[]" "[]" pre' s0 rest]
    by (simp only: b sum.case)
  moreover have "pre @ rest = pre' @ SessionMessage s0 # rest" by (simp add: pre)
  ultimately have "cleanup_loop [] [] [] [] (pre @ rest) = cleanup_loop [] [] [] b rest" by (simp only:)
  with len show ?thesis by blast
qed

text \<open>
  Claim C1, as the code has it. Take a session summary \<open>s\<close> anywhere in the file: it
  follows a segment \<open>mid\<close> without session summaries, the segment starting the file or
  following a session summary, and any records \<open>post\<close> may follow it. The per-sample
  values accumulated for \<open>s\<close> are those of the per-sample records of \<open>mid\<close>, zero
  standing for a missing value. The output holds, at the place of \<open>s\<close> (after the
  records kept from \<open>pre\<close> and \<open>mid\<close>), the summary \<open>s\<close> with each average set as
  follows: when the average of \<open>s\<close> is absent or zero and the accumulated list is not
  empty, the truncated mean of the strictly positive accumulated values (0 when there is
  none), and the average of \<open>s\<close> otherwise. This holds for cadence, power and heart
  rate alike; the other fields of \<open>s\<close> are unchanged, and the records after \<open>s\<close> are
  processed with empty accumulators. For the accumulated powers 100, 150, 200, 0 the
  average is 150.
\<close>

theorem session_avg_positive_mean:
  assumes boundary: "pre = [] \<or> is_SessionMessage (last pre)"
    and seg: "\<forall>m \<in> set mid. \<not> is_SessionMessage m"
    and cadences: "cadences = [if rec_cadence r \<noteq> None then rec_cadence r else Some 0. RecordMessage r \<leftarrow> mid]"
    and powers: "powers = [if rec_power r \<noteq> None then rec_power r else Some 0. RecordMessage r \<leftarrow> mid]"
    and heart_rates: "heart_rates = [if rec_heart_rate r \<noteq> None then rec_heart_rate r else Some 0. RecordMessage r \<leftarrow> mid]"
  shows "\<exists>out s' out_post.
     cleanup_loop [] [] [] [] (pre @ mid @ SessionMessage s # post) =
       Inr (out @ SessionMessage s' # out_post) \<and>
     length out = length [m \<leftarrow> pre @ mid. \<not> is_LapMessage m] \<and>
     cleanup_loop [] [] [] [] post = Inr out_post \<and>
     session_other s' = session_other s \<and>
     avg_cadence s' =
       (if (avg_cadence s = None \<or> avg_cadence s = Some 0) \<and> cadences \<noteq> []
        then Some (if [v. Some v \<leftarrow> cadences, 0 < v] = [] then 0
                   else sum_list [v. Some v \<leftarrow> cadences, 0 < v] div
                        int (length [v. Some v \<leftarrow> cadences, 0 < v]))
        else avg_cadence s) \<and>
     avg_power s' =
       (if (avg_power s = None \<or> avg_power s = Some 0) \<and> powers \<noteq> []
        then Some (if [v. Some v \<leftarrow> powers, 0 < v] = [] then 0
                   else sum_list [v. Some v \<leftarrow> powers, 0 < v] div
                        int (length [v. Some v \<leftarrow> powers, 0 < v]))
        else avg_power s) \<and>
     avg_heart_rate s' =
       (if (avg_heart_rate s = None \<or> avg_heart_rate s = Some 0) \<and> heart_rates \<noteq> []
        then Some (if [v. Some v \<leftarrow> heart_rates, 0 < v] = [] then 0
                   else sum_list [v. Some v \<leftarrow> heart_rates, 0 < v] div
                        int (length [v. Some v \<leftarrow> heart_rates, 0 < v]))
        else avg_heart_rate s)"
proof -
  define c' where "c' =
       (if (avg_cadence s = None \<or> avg_cadence s = Some 0) \<and> cadences \<noteq> []
        then Some (if [v. Some v \<leftarrow> cadences, 0 < v] = [] then 0
                   else sum_list [v. Some v \<leftarrow> cadences, 0 < v] div
                        int (length [v. Some v \<leftarrow> cadences, 0 < v]))
        else avg_cadence s)"
  define p' where "p' =
       (if (avg_power s = None \<or> avg_power s = Some 0) \<and> powers \<noteq> []
        then Some (if [v. Some v \<leftarrow> powers, 0 < v] = [] then 0
                   else sum_list [v. Some v \<leftarrow> powers, 0 < v] div
                        int (length [v. Some v \<leftarrow> powers, 0 < v]))
        else avg_power s)"
  define h' where "h' =
       (if (avg_heart_rate s = None \<or> avg_heart_rate s = Some 0) \<and> heart_rates \<noteq> []
        then Some (if [v. Some v \<leftarrow> heart_rates, 0 < v] = [] then 0
                   else sum_list [v. Some v \<leftarrow> heart_rates, 0 < v] div
                        int (length [v. Some v \<leftarrow> heart_rates, 0 < v]))
        else avg_heart_rate s)"
  have uc: "update_avg (avg_cadence s)
       [if rec_cadence r \<noteq> None then rec_cadence r else Some 0. RecordMessage r \<leftarrow> mid] = Inr c'"
    unfolding c'_def cadences by (rule update_avg_value)
  have up: "update_avg (avg_power s)
       [if rec_power r \<noteq> None then rec_power r else Some 0. RecordMessage r \<leftarrow> mid] = Inr p'"
    unfolding p'_def powers by (rule update_avg_value)
  have uh: "update_avg (avg_heart_rate s)
       [if rec_heart_rate r \<noteq> None then rec_heart_rate r else Some 0. RecordMessage r \<leftarrow> mid] = Inr h'"
    unfolding h'_def heart_rates by (rule update_avg_value)
  obtain out_post where post: "cleanup_loop [] [] [] [] post = Inr out_post"
    using cleanup_loop_total by blast
  from prefix_builder [OF boundary, of "mid @ SessionMessage s # post"]
  obtain b where lenb: "length b = length [m \<leftarrow> pre. \<not> is_LapMessage m]"
    and runb: "cleanup_loop [] [] [] [] (pre @ mid @ SessionMessage s # post) =
               cleanup_loop [] [] [] b (mid @ SessionMessage s # post)"
    by blast
  from segment_session_rest [OF seg uc up uh post, of b]
  obtain out_mid where lenm: "length out_mid = length [m \<leftarrow> mid. \<not> is_LapMessage m]"
    and runm: "cleanup_loop [] [] [] b (mid @ SessionMessage s # post) =
       Inr (b @ out_mid @
            SessionMessage (s\<lparr>avg_cadence := c', avg_power := p', avg_heart_rate := h'\<rparr>) # out_post)"
    by blast
  let ?s' = "s\<lparr>avg_cadence := c', avg_power := p', avg_heart_rate := h'\<rparr>"
  have run: "cleanup_loop [] [] [] [] (pre @ mid @ SessionMessage s # post) =
       Inr ((b @ out_mid) @ SessionMessage ?s' # out_post)"
    using runb runm by simp
  have len: "length (b @ out_mid) = length [m \<leftarrow> pre @ mid. \<not> is_LapMessage m]"
    using lenb lenm by simp
  have sel: "session_other ?s' = session_other s" "avg_cadence ?s' = c'" "avg_power ?s' = p'"
    "avg_heart_rate ?s' = h'" by simp_all
  have "\<exists>out s' out_post.
     cleanup_loop [] [] [] [] (pre @ mid @ SessionMessage s # post) =
       Inr (out @ SessionMessage s' # out_post) \<and>
     length out = length [m \<leftarrow> pre @ mid. \<not> is_LapMessage m] \<and>
     cleanup_loop [] [] [] [] post = Inr out_post \<and>
     session_other s' = session_other s \<and>
     avg_cadence s' = c' \<and> avg_power s' = p' \<and> avg_heart_rate s' = h'"
    using run len post sel by blast
  then show ?thesis unfolding c'_def p'_def h'_def .
qed

theorem session_avg_positive_mean_witness:
  "\<exists>out s' out_post.
     cleanup_loop [] [] [] []
       ([] @
        [RecordMessage \<lparr>rec_cadence = Some 90, rec_power = Some 100, rec_heart_rate = Some 130,
                        rec_temperature = Some 21, rec_other = []\<rparr>,
         RecordMessage \<lparr>rec_cadence = Some 90, rec_power = Some 150, rec_heart_rate = Some 130,
                        rec_temperature = Some 21, rec_other = []\<rparr>,
         RecordMessage \<lparr>rec_cadence = Some 90, rec_power = Some 200, rec_heart_rate = Some 130,
                        rec_temperature = Some 21, rec_other = []\<rparr>,
         RecordMessage \<lparr>rec_cadence = Some 90, rec_power = None, rec_heart_rate = Some 130,
                        rec_temperature = Some 21, rec_other = []\<rparr>] @
        SessionMessage \<lparr>avg_cadence = None, avg_power = Some 0, avg_heart_rate = Some 141,
                        session_other = []\<rparr> #
        [OtherMessage [7]]) = Inr (out @ SessionMessage s' # out_post) \<and>
     length out = 4 \<and> out_post = [OtherMessage [7]] \<and>
     avg_cadence s' = Some 90 \<and> avg_power s' = Some 150 \<and> avg_heart_rate s' = Some 141"
proof -
  from session_avg_positive_mean
    [of "[]"
        "[RecordMessage \<lparr>rec_cadence = Some 90, rec_power = Some 100, rec_heart_rate = Some 130,
                        rec_temperature = Some 21, rec_other = []\<rparr>,
         RecordMessage \<lparr>rec_cadence = Some 90, rec_power = Some 150, rec_heart_rate = Some 130,
                        rec_temperature = Some 21, rec_other = []\<rparr>,
         RecordMessage \<lparr>rec_cadence = Some 90, rec_power = Some 200, rec_heart_rate = Some 130,
                        rec_temperature = Some 21, rec_other = []\<rparr>,
         RecordMessage \<lparr>rec_cadence = Some 90, rec_power = None, rec_heart_rate = Some 130,
                        rec_temperature = Some 21, rec_other = []\<rparr>]"
        "[Some 90, Some 90, Some 90, Some 90]"
        "[Some 100, Some 150, Some 200, Some 0]"
        "[Some 130, Some 130, Some 130, Some 130]"
        "\<lparr>avg_cadence = None, avg_power = Some 0, avg_heart_rate = Some 141, session_other = []\<rparr>"
        "[OtherMessage [7]]"]
  obtain out s' out_post where
    run: "cleanup_loop [] [] [] []
       ([] @
        [RecordMessage \<lparr>rec_cadence = Some 90, rec_power = Some 100, rec_heart_rate = Some 130,
                        rec_temperature = Some 21, rec_other = []\<rparr>,
         RecordMessage \<lparr>rec_cadence = Some 90, rec_power = Some 150, rec_heart_rate = Some 130,
                        rec_temperature = Some 21, rec_other = []\<rparr>,
         RecordMessage \<lparr>rec_cadence = Some 90, rec_power = Some 200, rec_heart_rate = Some 130,
                        rec_temperature = Some 21, rec_other = []\<rparr>,
         RecordMessage \<lparr>rec_cadence = Some 90, rec_power = None, rec_heart_rate = Some 130,
                        rec_temperature = Some 21, rec_other = []\<rparr>] @
        SessionMessage \<lparr>avg_cadence = None, avg_power = Some 0, avg_heart_rate = Some 141,
                        session_other = []\<rparr> #
        [OtherMessage [7]]) = Inr (out @ SessionMessage s' # out_post)"
    and len: "length out = 4"
    and post: "cleanup_loop [] [] [] [] [OtherMessage [7]] = Inr out_post"
    and avgs: "avg_cadence s' = Some 90" "avg_power s' = Some 150" "avg_heart_rate s' = Some 141"
    by auto
  from post have "out_post = [OtherMessage [7]]" by simp
  with run len avgs show ?thesis by blast
qed

text \<open>
  The claim's own figure fails: with the accumulated powers 100, 150, 200 and 0 (the
  fourth sample has no power) and a session summary whose average power is 0, the loop
  writes 150, not 112.
\<close>

theorem session_avg_power_112_counterexample:
  "cleanup_loop [] [] [] []
     [RecordMessage \<lparr>rec_cadence = Some 90, rec_power = Some 100, rec_heart_rate = Some 130,
                     rec_temperature = Some 21, rec_other = []\<rparr>,
      RecordMessage \<lparr>rec_cadence = Some 90, rec_power = Some 150, rec_heart_rate = Some 130,
                     rec_temperature = Some 21, rec_other = []\<rparr>,
      RecordMessage \<lparr>rec_cadence = Some 90, rec_power = Some 200, rec_heart_rate = Some 130,
                     rec_temperature = Some 21, rec_other = []\<rparr>,
      RecordMessage \<lparr>rec_cadence = Some 90, rec_power = None, rec_heart_rate = Some 130,
                     rec_temperature = Some 21, rec_other = []\<rparr>,
      SessionMessage \<lparr>avg_cadence = Some 90, avg_power = Some 0, avg_heart_rate = Some 130,
                      session_other = []\<rparr>]
   = Inr
     [RecordMessage \<lparr>rec_cadence = Some 90, rec_power = Some 100, rec_heart_rate = Some 130,
                     rec_temperature = None, rec_other = []\<rparr>,
      RecordMessage \<lparr>rec_cadence = Some 90, rec_power = Some 150, rec_heart_rate = Some 130,
                     rec_temperature = None, rec_other = []\<rparr>,
      RecordMessage \<lparr>rec_cadence = Some 90, rec_power = Some 200, rec_heart_rate = Some 130,
                     rec_temperature = None, rec_other = []\<rparr>,
      RecordMessage \<lparr>rec_cadence = Some 90, rec_power = None, rec_heart_rate = Some 130,
                     rec_temperature = None, rec_other = []\<rparr>,
      SessionMessage \<lparr>avg_cadence = Some 90, avg_power = Some 150, avg_heart_rate = Some 130,
                      session_other = []\<rparr>]
   \<and> append_value (append_value (append_value (append_value [] 
         \<lparr>rec_cadence = Some 90, rec_power = Some 100, rec_heart_rate = Some 130,
                     rec_temperature = None, rec_other = []\<rparr> ''power'')
         \<lparr>rec_cadence = Some 90, rec_power = Some 150, rec_heart_rate = Some 130,
                     rec_temperature = None, rec_other = []\<rparr> ''power'')
         \<lparr>rec_cadence = Some 90, rec_power = Some 200, rec_heart_rate = Some 130,
                     rec_temperature = None, rec_other = []\<rparr> ''power'')
         \<lparr>rec_cadence = Some 90, rec_power = None, rec_heart_rate = Some 130,
                     rec_temperature = None, rec_other = []\<rparr> ''power''
       = [Some 100, Some 150, Some 200, Some 0]
   \<and> Some (150 :: int) \<noteq> Some 112"
  by (simp add: Let_def append_value_def getattr_record_def update_avg_def calculate_avg_def
      int_of_truediv_def)


text \<open>
  Claim C7. The transformer reads \<open>fit_file_path\<close> and writes \<open>new_file_path\<close>, two
  different files. Whatever happens, the source file holds the same bytes afterwards.
  When the source is readable and parses, the destination is writable and the write
  succeeds, the destination file is the encoding of the input's records without the lap
  records, in the input's order: position by position a per-sample record without its
  temperature, a session summary with its other fields unchanged, or the very same
  record when it is of any other type.
\<close>

theorem cleanup_fit_file_frame:
  assumes distinct_paths: "new_file_path \<noteq> fit_file_path"
  shows "snd (cleanup_fit_file io fs fit_file_path new_file_path) fit_file_path = fs fit_file_path \<and>
     (fs fit_file_path = Some content \<and> can_read io fit_file_path \<and>
      can_write_parent io new_file_path \<and> decode io content = Some records \<and>
      write_result io new_file_path = Written \<longrightarrow>
        (\<exists>messages.
           cleanup_fit_file io fs fit_file_path new_file_path =
             (True, fs(new_file_path \<mapsto> encode io messages)) \<and>
           list_all2 kept_as [m \<leftarrow> records. \<not> is_LapMessage m] messages \<and>
           (\<forall>m' \<in> set messages. \<not> is_LapMessage m') \<and>
           [m' \<leftarrow> messages. is_OtherMessage m'] = [m \<leftarrow> records. is_OtherMessage m]))"
proof (intro conjI impI)
  show "snd (cleanup_fit_file io fs fit_file_path new_file_path) fit_file_path = fs fit_file_path"
    using distinct_paths
    by (simp add: cleanup_fit_file_def split: option.splits sum.splits write_outcome.splits)
next
  assume ok: "fs fit_file_path = Some content \<and> can_read io fit_file_path \<and>
      can_write_parent io new_file_path \<and> decode io content = Some records \<and>
      write_result io new_file_path = Written"
  obtain messages where run: "cleanup_loop [] [] [] [] records = Inr messages"
    and kept: "list_all2 kept_as [m \<leftarrow> records. \<not> is_LapMessage m] messages"
    using cleanup_loop_result by blast
  have written: "cleanup_fit_file io fs fit_file_path new_file_path =
             (True, fs(new_file_path \<mapsto> encode io messages))"
    using ok run by (simp add: cleanup_fit_file_def)
  have nolap: "\<forall>m' \<in> set messages. \<not> is_LapMessage m'"
    using kept kept_as_not_lap by (metis in_set_conv_nth list_all2_conv_all_nth)
  have others: "[m' \<leftarrow> messages. is_OtherMessage m'] = [m \<leftarrow> records. is_OtherMessage m]"
  proof -
    have "[m' \<leftarrow> messages. is_OtherMessage m'] =
          [m \<leftarrow> [m \<leftarrow> records. \<not> is_LapMessage m]. is_OtherMessage m]"
      using kept by (rule kept_as_others)
    also have "\<dots> = [m \<leftarrow> records. is_OtherMessage m]"
      by (induction records) (auto simp: is_OtherMessage_def)
    finally show ?thesis .
  qed
  from written kept nolap others show "\<exists>messages.
           cleanup_fit_file io fs fit_file_path new_file_path =
             (True, fs(new_file_path \<mapsto> encode io messages)) \<and>
           list_all2 kept_as [m \<leftarrow> records. \<not> is_LapMessage m] messages \<and>
           (\<forall>m' \<in> set messages. \<not> is_LapMessage m') \<and>
           [m' \<leftarrow> messages. is_OtherMessage m'] = [m \<leftarrow> records. is_OtherMessage m]"
    by blast
qed

theorem cleanup_fit_file_frame_witness:
  "''b/MW_1.fit'' \<noteq> ''a/MyNewActivity-1.fit'' \<and>
   cleanup_fit_file
     \<lparr>decode = (\<lambda>content. if content = [7] then
          Some [OtherMessage [1], LapMessage [2],
                RecordMessage \<lparr>rec_cadence = Some 90, rec_power = Some 100, rec_heart_rate = None,
                               rec_temperature = Some 21, rec_other = [3]\<rparr>,
                SessionMessage \<lparr>avg_cadence = None, avg_power = None, avg_heart_rate = None,
                                session_other = [4]\<rparr>,
                OtherMessage [5]] else None),
      encode = map (\<lambda>m. if is_OtherMessage m then 0 else if is_RecordMessage m then 1 else 2),
      can_read = (\<lambda>p. True), can_write_parent = (\<lambda>p. True), write_result = (\<lambda>p. Written)\<rparr>
     [''a/MyNewActivity-1.fit'' \<mapsto> [7]] ''a/MyNewActivity-1.fit'' ''b/MW_1.fit''
   = (True, [''a/MyNewActivity-1.fit'' \<mapsto> [7], ''b/MW_1.fit'' \<mapsto> [0, 1, 2, 0]])"
  using cleanup_fit_file_frame
    [of "''b/MW_1.fit''" "''a/MyNewActivity-1.fit''"
        "\<lparr>decode = (\<lambda>content. if content = [7] then
          Some [OtherMessage [1], LapMessage [2],
                RecordMessage \<lparr>rec_cadence = Some 90, rec_power = Some 100, rec_heart_rate = None,
                               rec_temperature = Some 21, rec_other = [3]\<rparr>,
                SessionMessage \<lparr>avg_cadence = None, avg_power = None, avg_heart_rate = None,
                                session_other = [4]\<rparr>,
                OtherMessage [5]] else None),
      encode = map (\<lambda>m. if is_OtherMessage m then 0 else if is_RecordMessage m then 1 else 2),
      can_read = (\<lambda>p. True), can_write_parent = (\<lambda>p. True), write_result = (\<lambda>p. Written)\<rparr>"
        "[''a/MyNewActivity-1.fit'' \<mapsto> [7]]" "[7]"
        "[OtherMessage [1], LapMessage [2],
                RecordMessage \<lparr>rec_cadence = Some 90, rec_power = Some 100, rec_heart_rate = None,
                               rec_temperature = Some 21, rec_other = [3]\<rparr>,
                SessionMessage \<lparr>avg_cadence = None, avg_power = None, avg_heart_rate = None,
                                session_other = [4]\<rparr>,
                OtherMessage [5]]"]
  by (simp add: cleanup_fit_file_def Let_def append_value_def getattr_record_def update_avg_def
      calculate_avg_def int_of_truediv_def)

section \<open>Properties of the processed-set tracker\<close>

lemma update_entry_in_set: "(k, v) \<in> set (AList.update k v al)"
  by (induction al) auto

lemma update_key_in_keys: "k \<in> fst ` set (AList.update k v al)"
  by (simp add: dom_update)

lemma map_of_present: "k \<in> fst ` set al \<Longrightarrow> \<exists>v. map_of al k = Some v"
  by (induction al) auto

lemma map_of_absent: "k \<notin> fst ` set al \<Longrightarrow> map_of al k = None"
  by (induction al) auto

text \<open>What marking does, in the two cases of the key being in the configuration or not.\<close>

lemma mark_present:
  assumes "map_of (config cm) ''processed_files'' = Some (JObj d)"
  shows "mark_file_processed now cm info =
     Inr (cm\<lparr>config := AList.update ''processed_files''
            (JObj (AList.update (file_key info)
                  (JObj [(''timestamp'', JStr now),
                         (''hash'', JStr (file_hash info)),
                         (''size'', JInt (size_bytes info)),
                         (''path'', JStr (path info))]) d)) (config cm)\<rparr>)"
proof -
  from assms have present: "''processed_files'' \<in> fst ` set (config cm)"
    by (metis map_of_absent option.distinct(1))
  show ?thesis
    using assms present
    by (simp add: mark_file_processed_def config_get_def config_set_def Let_def update_conv')
qed

lemma mark_absent:
  assumes "map_of (config cm) ''processed_files'' = None"
  shows "mark_file_processed now cm info =
     Inr (cm\<lparr>config := AList.update ''processed_files''
            (JObj [(file_key info,
                  JObj [(''timestamp'', JStr now),
                         (''hash'', JStr (file_hash info)),
                         (''size'', JInt (size_bytes info)),
                         (''path'', JStr (path info))])]) (config cm),
            dirty := True, auto_save_timer := True\<rparr>)"
proof -
  from assms have absent: "''processed_files'' \<notin> fst ` set (config cm)"
    by (metis map_of_present option.distinct(1))
  show ?thesis
    using assms absent
    by (simp add: mark_file_processed_def config_get_def config_set_def Let_def)
qed

lemma mark_cases:
  assumes "mark_file_processed now cm info = Inr cm'"
  shows "(\<exists>d. map_of (config cm) ''processed_files'' = Some (JObj d)) \<or>
         map_of (config cm) ''processed_files'' = None"
  using assms
  by (cases "map_of (config cm) ''processed_files''")
     (auto simp: mark_file_processed_def config_get_def split: json.splits)

lemma marked_ledger:
  assumes "mark_file_processed now cm info = Inr cm'"
  shows "\<exists>ledger. map_of (config cm') ''processed_files'' = Some (JObj ledger) \<and>
     (file_key info, JObj [(''timestamp'', JStr now),
                         (''hash'', JStr (file_hash info)),
                         (''size'', JInt (size_bytes info)),
                         (''path'', JStr (path info))]) \<in> set ledger"
proof -
  from mark_cases [OF assms] show ?thesis
  proof
    assume "\<exists>d. map_of (config cm) ''processed_files'' = Some (JObj d)"
    then obtain d where d: "map_of (config cm) ''processed_files'' = Some (JObj d)" ..
    from mark_present [OF d, of now info] assms show ?thesis
      by (auto simp: update_conv' update_entry_in_set)
  next
    assume none: "map_of (config cm) ''processed_files'' = None"
    from mark_absent [OF none, of now info] assms show ?thesis
      by (auto simp: update_conv')
  qed
qed

lemma processed_by_hash:
  assumes "map_of (config cm) ''processed_files'' = Some (JObj ledger)"
    and "(key, data) \<in> set ledger" and "hash_matches info data" and "file_hash info \<noteq> []"
  shows "is_file_processed cm info = Inr True"
  using assms by (auto simp: is_file_processed_def config_get_def)

lemma processed_by_key:
  assumes "map_of (config cm) ''processed_files'' = Some (JObj ledger)"
    and "(file_key info, data) \<in> set ledger"
  shows "is_file_processed cm info = Inr True"
proof -
  from assms(2) have "file_key info \<in> fst ` set ledger" by force
  with assms(1) show ?thesis by (simp add: is_file_processed_def config_get_def)
qed

lemma file_key_example:
  "file_key \<lparr>name = ''MyNewActivity-1.fit'', path = ''a/MyNewActivity-1.fit'', size = ''1 KB'',
      date = ''01/11/2026 10:00'', source = ''MyWhoosh'', processed = False,
      modified_time = ''2026-11-01T10:00:00'', file_hash = ''0123456789abcdef'',
      size_bytes = 1024\<rparr> = ''MyNewActivity-1.fit_1024''"
  by (simp add: file_key_def str_int_def str_nat.simps)

text \<open>
  Claim C5. Let \<open>r\<close> have a non-empty fingerprint and \<open>r'\<close> the same fingerprint
  (its name and size may be anything, so also those of a renamed copy). Once \<open>r\<close> has
  been marked processed, \<open>is_file_processed\<close> returns true for \<open>r'\<close>. More
  generally an entry with that fingerprint under any key of the ledger is enough: the
  hash loop answers before the name and size key is looked up.
\<close>

theorem fingerprint_precedence:
  assumes "file_hash r \<noteq> []" and "file_hash r' = file_hash r"
  shows "(mark_file_processed now cm r = Inr cm' \<longrightarrow> is_file_processed cm' r' = Inr True) \<and>
         (map_of (config cm) ''processed_files'' = Some (JObj ledger) \<and>
          (key, data) \<in> set ledger \<and> hash_matches r data \<longrightarrow>
            is_file_processed cm r' = Inr True)"
proof (intro conjI impI)
  assume "mark_file_processed now cm r = Inr cm'"
  from marked_ledger [OF this] obtain ledger' where
    l: "map_of (config cm') ''processed_files'' = Some (JObj ledger')" and
    e: "(file_key r, JObj [(''timestamp'', JStr now),
                         (''hash'', JStr (file_hash r)),
                         (''size'', JInt (size_bytes r)),
                         (''path'', JStr (path r))]) \<in> set ledger'"
    by blast
  have "hash_matches r' (JObj [(''timestamp'', JStr now),
                         (''hash'', JStr (file_hash r)),
                         (''size'', JInt (size_bytes r)),
                         (''path'', JStr (path r))])"
    using assms(2) by (simp add: hash_matches_def)
  from processed_by_hash [OF l e this] assms show "is_file_processed cm' r' = Inr True" by simp
next
  assume a: "map_of (config cm) ''processed_files'' = Some (JObj ledger) \<and>
          (key, data) \<in> set ledger \<and> hash_matches r data"
  then have "hash_matches r' data" using assms(2) by (simp add: hash_matches_def split: json.splits)
  with a assms show "is_file_processed cm r' = Inr True"
    using processed_by_hash [of cm ledger key data r'] by simp
qed

theorem fingerprint_precedence_witness:
  "file_hash \<lparr>name = ''MyNewActivity-1.fit'', path = ''a/MyNewActivity-1.fit'', size = ''1 KB'',
      date = ''01/11/2026 10:00'', source = ''MyWhoosh'', processed = False,
      modified_time = ''2026-11-01T10:00:00'', file_hash = ''0123456789abcdef'',
      size_bytes = 1024\<rparr> \<noteq> [] \<and>
   name \<lparr>name = ''renamed.fit'', path = ''a/renamed.fit'', size = ''1 KB'',
      date = ''02/11/2026 10:00'', source = ''MyWhoosh'', processed = False,
      modified_time = ''2026-11-02T10:00:00'', file_hash = ''0123456789abcdef'',
      size_bytes = 1024\<rparr> \<noteq> ''MyNewActivity-1.fit'' \<and>
   mark_file_processed ''2026-11-01T10:05:00''
     \<lparr>config = get_default_config, dirty = False, auto_save_timer = False\<rparr>
     \<lparr>name = ''MyNewActivity-1.fit'', path = ''a/MyNewActivity-1.fit'', size = ''1 KB'',
      date = ''01/11/2026 10:00'', source = ''MyWhoosh'', processed = False,
      modified_time = ''2026-11-01T10:00:00'', file_hash = ''0123456789abcdef'',
      size_bytes = 1024\<rparr>
   = Inr \<lparr>config = AList.update ''processed_files''
         (JObj [(''MyNewActivity-1.fit_1024'',
                 JObj [(''timestamp'', JStr ''2026-11-01T10:05:00''),
                       (''hash'', JStr ''0123456789abcdef''),
                       (''size'', JInt 1024),
                       (''path'', JStr ''a/MyNewActivity-1.fit'')])]) get_default_config,
       dirty = False, auto_save_timer = False\<rparr> \<and>
   is_file_processed
     \<lparr>config = AList.update ''processed_files''
         (JObj [(''MyNewActivity-1.fit_1024'',
                 JObj [(''timestamp'', JStr ''2026-11-01T10:05:00''),
                       (''hash'', JStr ''0123456789abcdef''),
                       (''size'', JInt 1024),
                       (''path'', JStr ''a/MyNewActivity-1.fit'')])]) get_default_config,
       dirty = False, auto_save_timer = False\<rparr>
     \<lparr>name = ''renamed.fit'', path = ''a/renamed.fit'', size = ''1 KB'',
      date = ''02/11/2026 10:00'', source = ''MyWhoosh'', processed = False,
      modified_time = ''2026-11-02T10:00:00'', file_hash = ''0123456789abcdef'',
      size_bytes = 1024\<rparr> = Inr True"
proof -
  have marked: "mark_file_processed ''2026-11-01T10:05:00''
     \<lparr>config = get_default_config, dirty = False, auto_save_timer = False\<rparr>
     \<lparr>name = ''MyNewActivity-1.fit'', path = ''a/MyNewActivity-1.fit'', size = ''1 KB'',
      date = ''01/11/2026 10:00'', source = ''MyWhoosh'', processed = False,
      modified_time = ''2026-11-01T10:00:00'', file_hash = ''0123456789abcdef'',
      size_bytes = 1024\<rparr>
   = Inr \<lparr>config = AList.update ''processed_files''
         (JObj [(''MyNewActivity-1.fit_1024'',
                 JObj [(''timestamp'', JStr ''2026-11-01T10:05:00''),
                       (''hash'', JStr ''0123456789abcdef''),
                       (''size'', JInt 1024),
                       (''path'', JStr ''a/MyNewActivity-1.fit'')])]) get_default_config,
       dirty = False, auto_save_timer = False\<rparr>"
    by (simp add: mark_file_processed_def config_get_def config_set_def get_default_config_def
        file_key_example Let_def)
  from fingerprint_precedence
    [of "\<lparr>name = ''MyNewActivity-1.fit'', path = ''a/MyNewActivity-1.fit'', size = ''1 KB'',
      date = ''01/11/2026 10:00'', source = ''MyWhoosh'', processed = False,
      modified_time = ''2026-11-01T10:00:00'', file_hash = ''0123456789abcdef'',
      size_bytes = 1024\<rparr>"
      "\<lparr>name = ''renamed.fit'', path = ''a/renamed.fit'', size = ''1 KB'',
      date = ''02/11/2026 10:00'', source = ''MyWhoosh'', processed = False,
      modified_time = ''2026-11-02T10:00:00'', file_hash = ''0123456789abcdef'',
      size_bytes = 1024\<rparr>"
      "''2026-11-01T10:05:00''"
      "\<lparr>config = get_default_config, dirty = False, auto_save_timer = False\<rparr>"
      "\<lparr>config = AList.update ''processed_files''
         (JObj [(''MyNewActivity-1.fit_1024'',
                 JObj [(''timestamp'', JStr ''2026-11-01T10:05:00''),
                       (''hash'', JStr ''0123456789abcdef''),
                       (''size'', JInt 1024),
                       (''path'', JStr ''a/MyNewActivity-1.fit'')])]) get_default_config,
       dirty = False, auto_save_timer = False\<rparr>"]
    marked
  show ?thesis by simp
qed

text \<open>
  Claim C6, as the code has it. The entry holds the time of the call, so a second call
  overwrites the timestamp: marking at \<open>t1\<close> and then at \<open>t2\<close> gives the state that
  marking once at \<open>t2\<close> gives, which is the state after the first call exactly when the
  clock reads the same. The second call succeeds, and \<open>is_file_processed\<close> returns
  true afterwards.
\<close>

theorem mark_twice_as_once:
  assumes "mark_file_processed t1 cm r = Inr cm1"
  shows "mark_file_processed t2 cm1 r = mark_file_processed t2 cm r \<and>
         (\<exists>cm2. mark_file_processed t2 cm1 r = Inr cm2 \<and> is_file_processed cm2 r = Inr True) \<and>
         (t2 = t1 \<longrightarrow> mark_file_processed t2 cm1 r = Inr cm1)"
proof -
  have same: "mark_file_processed t2 cm1 r = mark_file_processed t2 cm r"
    using mark_cases [OF assms]
  proof
    assume "\<exists>d. map_of (config cm) ''processed_files'' = Some (JObj d)"
    then obtain d where d: "map_of (config cm) ''processed_files'' = Some (JObj d)" ..
    from mark_present [OF d, of t1 r] assms have cm1: "cm1 = cm\<lparr>config := AList.update ''processed_files''
            (JObj (AList.update (file_key r)
                  (JObj [(''timestamp'', JStr t1),
                         (''hash'', JStr (file_hash r)),
                         (''size'', JInt (size_bytes r)),
                         (''path'', JStr (path r))]) d)) (config cm)\<rparr>" by simp
    then have d1: "map_of (config cm1) ''processed_files'' = Some (JObj (AList.update (file_key r)
                  (JObj [(''timestamp'', JStr t1),
                         (''hash'', JStr (file_hash r)),
                         (''size'', JInt (size_bytes r)),
                         (''path'', JStr (path r))]) d))"
      by (simp add: update_conv')
    have "mark_file_processed t2 cm1 r = Inr (cm1\<lparr>config := AList.update ''processed_files''
            (JObj (AList.update (file_key r)
                  (JObj [(''timestamp'', JStr t2),
                         (''hash'', JStr (file_hash r)),
                         (''size'', JInt (size_bytes r)),
                         (''path'', JStr (path r))])
               (AList.update (file_key r)
                  (JObj [(''timestamp'', JStr t1),
                         (''hash'', JStr (file_hash r)),
                         (''size'', JInt (size_bytes r)),
                         (''path'', JStr (path r))]) d))) (config cm1)\<rparr>)"
      by (rule mark_present [OF d1])
    also have "\<dots> = mark_file_processed t2 cm r"
      by (simp add: mark_present [OF d] cm1)
    finally show ?thesis .
  next
    assume none: "map_of (config cm) ''processed_files'' = None"
    from mark_absent [OF none, of t1 r] assms have cm1: "cm1 = cm\<lparr>config := AList.update ''processed_files''
            (JObj [(file_key r,
                  JObj [(''timestamp'', JStr t1),
                         (''hash'', JStr (file_hash r)),
                         (''size'', JInt (size_bytes r)),
                         (''path'', JStr (path r))])]) (config cm),
            dirty := True, auto_save_timer := True\<rparr>" by simp
    then have d1: "map_of (config cm1) ''processed_files'' = Some (JObj [(file_key r,
                  JObj [(''timestamp'', JStr t1),
                         (''hash'', JStr (file_hash r)),
                         (''size'', JInt (size_bytes r)),
                         (''path'', JStr (path r))])])"
      by (simp add: update_conv')
    have "mark_file_processed t2 cm1 r = Inr (cm1\<lparr>config := AList.update ''processed_files''
            (JObj (AList.update (file_key r)
                  (JObj [(''timestamp'', JStr t2),
                         (''hash'', JStr (file_hash r)),
                         (''size'', JInt (size_bytes r)),
                         (''path'', JStr (path r))])
               [(file_key r,
                  JObj [(''timestamp'', JStr t1),
                         (''hash'', JStr (file_hash r)),
                         (''size'', JInt (size_bytes r)),
                         (''path'', JStr (path r))])])) (config cm1)\<rparr>)"
      by (rule mark_present [OF d1])
    also have "\<dots> = mark_file_processed t2 cm r"
      by (simp add: mark_absent [OF none] cm1)
    finally show ?thesis .
  qed
  obtain cm2 where cm2: "mark_file_processed t2 cm1 r = Inr cm2"
    using mark_cases [OF assms] same mark_present mark_absent by metis
  from marked_ledger [OF cm2] obtain ledger where
    "map_of (config cm2) ''processed_files'' = Some (JObj ledger)" and
    "(file_key r, JObj [(''timestamp'', JStr t2),
                         (''hash'', JStr (file_hash r)),
                         (''size'', JInt (size_bytes r)),
                         (''path'', JStr (path r))]) \<in> set ledger"
    by blast
  then have checked: "is_file_processed cm2 r = Inr True" by (rule processed_by_key)
  have "t2 = t1 \<longrightarrow> mark_file_processed t2 cm1 r = Inr cm1"
  proof
    assume "t2 = t1"
    with same have "mark_file_processed t2 cm1 r = mark_file_processed t1 cm r" by (simp only:)
    with assms show "mark_file_processed t2 cm1 r = Inr cm1" by (simp only:)
  qed
  with same cm2 checked show ?thesis by blast
qed

theorem mark_twice_as_once_witness:
  "mark_file_processed ''2026-11-01T10:05:00''
     \<lparr>config = get_default_config, dirty = False, auto_save_timer = False\<rparr>
     \<lparr>name = ''MyNewActivity-1.fit'', path = ''a/MyNewActivity-1.fit'', size = ''1 KB'',
      date = ''01/11/2026 10:00'', source = ''MyWhoosh'', processed = False,
      modified_time = ''2026-11-01T10:00:00'', file_hash = ''0123456789abcdef'',
      size_bytes = 1024\<rparr>
   = Inr \<lparr>config = AList.update ''processed_files''
         (JObj [(''MyNewActivity-1.fit_1024'',
                 JObj [(''timestamp'', JStr ''2026-11-01T10:05:00''),
                       (''hash'', JStr ''0123456789abcdef''),
                       (''size'', JInt 1024),
                       (''path'', JStr ''a/MyNewActivity-1.fit'')])]) get_default_config,
       dirty = False, auto_save_timer = False\<rparr> \<and>
   mark_file_processed ''2026-11-01T10:05:01''
     \<lparr>config = AList.update ''processed_files''
         (JObj [(''MyNewActivity-1.fit_1024'',
                 JObj [(''timestamp'', JStr ''2026-11-01T10:05:00''),
                       (''hash'', JStr ''0123456789abcdef''),
                       (''size'', JInt 1024),
                       (''path'', JStr ''a/MyNewActivity-1.fit'')])]) get_default_config,
       dirty = False, auto_save_timer = False\<rparr>
     \<lparr>name = ''MyNewActivity-1.fit'', path = ''a/MyNewActivity-1.fit'', size = ''1 KB'',
      date = ''01/11/2026 10:00'', source = ''MyWhoosh'', processed = False,
      modified_time = ''2026-11-01T10:00:00'', file_hash = ''0123456789abcdef'',
      size_bytes = 1024\<rparr>
   = mark_file_processed ''2026-11-01T10:05:01''
     \<lparr>config = get_default_config, dirty = False, auto_save_timer = False\<rparr>
     \<lparr>name = ''MyNewActivity-1.fit'', path = ''a/MyNewActivity-1.fit'', size = ''1 KB'',
      date = ''01/11/2026 10:00'', source = ''MyWhoosh'', processed = False,
      modified_time = ''2026-11-01T10:00:00'', file_hash = ''0123456789abcdef'',
      size_bytes = 1024\<rparr>"
proof -
  have marked: "mark_file_processed ''2026-11-01T10:05:00''
     \<lparr>config = get_default_config, dirty = False, auto_save_timer = False\<rparr>
     \<lparr>name = ''MyNewActivity-1.fit'', path = ''a/MyNewActivity-1.fit'', size = ''1 KB'',
      date = ''01/11/2026 10:00'', source = ''MyWhoosh'', processed = False,
      modified_time = ''2026-11-01T10:00:00'', file_hash = ''0123456789abcdef'',
      size_bytes = 1024\<rparr>
   = Inr \<lparr>config = AList.update ''processed_files''
         (JObj [(''MyNewActivity-1.fit_1024'',
                 JObj [(''timestamp'', JStr ''2026-11-01T10:05:00''),
                       (''hash'', JStr ''0123456789abcdef''),
                       (''size'', JInt 1024),
                       (''path'', JStr ''a/MyNewActivity-1.fit'')])]) get_default_config,
       dirty = False, auto_save_timer = False\<rparr>"
    by (simp add: mark_file_processed_def config_get_def config_set_def get_default_config_def
        file_key_example Let_def)
  from mark_twice_as_once [OF marked, of "''2026-11-01T10:05:01''"] marked
  show ?thesis by blast
qed

text \<open>
  The claim as stated fails when the clock has moved between the two calls: the ledger
  after the second call differs from the ledger after the first in the timestamp.
\<close>

theorem mark_twice_counterexample:
  "mark_file_processed ''2026-11-01T10:05:00''
     \<lparr>config = get_default_config, dirty = False, auto_save_timer = False\<rparr>
     \<lparr>name = ''MyNewActivity-1.fit'', path = ''a/MyNewActivity-1.fit'', size = ''1 KB'',
      date = ''01/11/2026 10:00'', source = ''MyWhoosh'', processed = False,
      modified_time = ''2026-11-01T10:00:00'', file_hash = ''0123456789abcdef'',
      size_bytes = 1024\<rparr>
   = Inr \<lparr>config = AList.update ''processed_files''
         (JObj [(''MyNewActivity-1.fit_1024'',
                 JObj [(''timestamp'', JStr ''2026-11-01T10:05:00''),
                       (''hash'', JStr ''0123456789abcdef''),
                       (''size'', JInt 1024),
                       (''path'', JStr ''a/MyNewActivity-1.fit'')])]) get_default_config,
       dirty = False, auto_save_timer = False\<rparr> \<and>
   mark_file_processed ''2026-11-01T10:05:01''
     \<lparr>config = AList.update ''processed_files''
         (JObj [(''MyNewActivity-1.fit_1024'',
                 JObj [(''timestamp'', JStr ''2026-11-01T10:05:00''),
                       (''hash'', JStr ''0123456789abcdef''),
                       (''size'', JInt 1024),
                       (''path'', JStr ''a/MyNewActivity-1.fit'')])]) get_default_config,
       dirty = False, auto_save_timer = False\<rparr>
     \<lparr>name = ''MyNewActivity-1.fit'', path = ''a/MyNewActivity-1.fit'', size = ''1 KB'',
      date = ''01/11/2026 10:00'', source = ''MyWhoosh'', processed = False,
      modified_time = ''2026-11-01T10:00:00'', file_hash = ''0123456789abcdef'',
      size_bytes = 1024\<rparr>
   = Inr \<lparr>config = AList.update ''processed_files''
         (JObj [(''MyNewActivity-1.fit_1024'',
                 JObj [(''timestamp'', JStr ''2026-11-01T10:05:01''),
                       (''hash'', JStr ''0123456789abcdef''),
                       (''size'', JInt 1024),
                       (''path'', JStr ''a/MyNewActivity-1.fit'')])]) get_default_config,
       dirty = False, auto_save_timer = False\<rparr> \<and>
   mark_file_processed ''2026-11-01T10:05:01''
     \<lparr>config = AList.update ''processed_files''
         (JObj [(''MyNewActivity-1.fit_1024'',
                 JObj [(''timestamp'', JStr ''2026-11-01T10:05:00''),
                       (''hash'', JStr ''0123456789abcdef''),
                       (''size'', JInt 1024),
                       (''path'', JStr ''a/MyNewActivity-1.fit'')])]) get_default_config,
       dirty = False, auto_save_timer = False\<rparr>
     \<lparr>name = ''MyNewActivity-1.fit'', path = ''a/MyNewActivity-1.fit'', size = ''1 KB'',
      date = ''01/11/2026 10:00'', source = ''MyWhoosh'', processed = False,
      modified_time = ''2026-11-01T10:00:00'', file_hash = ''0123456789abcdef'',
      size_bytes = 1024\<rparr>
   \<noteq> mark_file_processed ''2026-11-01T10:05:00''
     \<lparr>config = get_default_config, dirty = False, auto_save_timer = False\<rparr>
     \<lparr>name = ''MyNewActivity-1.fit'', path = ''a/MyNewActivity-1.fit'', size = ''1 KB'',
      date = ''01/11/2026 10:00'', source = ''MyWhoosh'', processed = False,
      modified_time = ''2026-11-01T10:00:00'', file_hash = ''0123456789abcdef'',
      size_bytes = 1024\<rparr>"
  by (simp add: mark_file_processed_def config_get_def config_set_def get_default_config_def
      file_key_example Let_def)

section \<open>Properties of the upload dispatcher\<close>

subsection \<open>The retry loop\<close>

lemma retry_loop_bound:
  "attempts_made (snd (retry_loop outcome max_retries as trace)) \<le> attempts_made trace + length as"
proof (induction as arbitrary: trace)
  case Nil
  show ?case by simp
next
  case (Cons a as)
  show ?case
  proof (cases "outcome a")
    case SessionExpired
    then show ?thesis by simp
  next
    case Uploaded
    then show ?thesis by simp
  next
    case (Raised error_msg)
    have step: "attempts_made (snd (retry_loop outcome max_retries as
                   (trace\<lparr>attempts_made := attempts_made trace + 1, sleeps := s\<rparr>)))
                \<le> attempts_made trace + length (a # as)" for s
      using Cons.IH [of "trace\<lparr>attempts_made := attempts_made trace + 1, sleeps := s\<rparr>"] by simp
    have step': "attempts_made (snd (retry_loop outcome max_retries as
                   (trace\<lparr>attempts_made := attempts_made trace + 1\<rparr>)))
                \<le> attempts_made trace + length (a # as)"
      using Cons.IH [of "trace\<lparr>attempts_made := attempts_made trace + 1\<rparr>"] by simp
    show ?thesis
      using Raised step step' by (simp add: Let_def)
  qed
qed

lemma retry_loop_retried_step:
  assumes "outcome a = Raised m" and "\<not> duplicate_error m" and "\<not> unauthorized_error m"
  shows "\<exists>s. retry_loop outcome max_retries (a # xs) trace =
              retry_loop outcome max_retries xs
                (trace\<lparr>attempts_made := attempts_made trace + 1, sleeps := s\<rparr>)"
proof (cases "rate_limit_error m")
  case True
  with assms show ?thesis
    by (intro exI [of _ "sleeps trace @ [min (2 ^ a * 2) 60]"]) (simp add: Let_def)
next
  case no_rate: False
  show ?thesis
  proof (cases "int a < int max_retries - 1")
    case not_last: True
    show ?thesis
    proof (cases "network_error m")
      case True
      with assms no_rate not_last show ?thesis
        by (intro exI [of _ "sleeps trace @ [min (2 ^ a) 30]"]) (simp add: Let_def)
    next
      case False
      with assms no_rate not_last show ?thesis
        by (intro exI [of _ "sleeps trace @ [2 ^ a]"]) (simp add: Let_def)
    qed
  next
    case False
    with assms no_rate show ?thesis
      by (intro exI [of _ "sleeps trace"]) (simp add: Let_def)
  qed
qed

lemma retry_loop_retried_prefix:
  assumes "\<forall>a \<in> set pre. \<exists>m. outcome a = Raised m \<and> \<not> duplicate_error m \<and> \<not> unauthorized_error m"
  shows "\<exists>trace'. retry_loop outcome max_retries (pre @ rest) trace =
                   retry_loop outcome max_retries rest trace' \<and>
                 attempts_made trace' = attempts_made trace + length pre \<and>
                 invalidated trace' = invalidated trace"
  using assms
proof (induction pre arbitrary: trace)
  case Nil
  show ?case by (intro exI [of _ trace]) simp
next
  case (Cons a pre)
  from Cons.prems obtain m where m: "outcome a = Raised m" "\<not> duplicate_error m" "\<not> unauthorized_error m"
    by auto
  from Cons.prems have rest_ok:
    "\<forall>a \<in> set pre. \<exists>m. outcome a = Raised m \<and> \<not> duplicate_error m \<and> \<not> unauthorized_error m"
    by simp
  from retry_loop_retried_step [of outcome a m max_retries "pre @ rest" trace] m
  obtain s where s: "retry_loop outcome max_retries ((a # pre) @ rest) trace =
             retry_loop outcome max_retries (pre @ rest)
               (trace\<lparr>attempts_made := attempts_made trace + 1, sleeps := s\<rparr>)"
    by auto
  from Cons.IH [OF rest_ok, of "trace\<lparr>attempts_made := attempts_made trace + 1, sleeps := s\<rparr>"]
  obtain trace' where
    "retry_loop outcome max_retries (pre @ rest) (trace\<lparr>attempts_made := attempts_made trace + 1, sleeps := s\<rparr>)
       = retry_loop outcome max_retries rest trace'"
    "attempts_made trace' = attempts_made trace + 1 + length pre" "invalidated trace' = invalidated trace"
    by auto
  with s show ?case by (intro exI [of _ trace']) simp
qed

lemma retry_loop_duplicate:
  assumes "outcome j = Raised error_msg" and "duplicate_error error_msg"
  shows "retry_loop outcome max_retries (j # rest) trace =
           ((True, True), trace\<lparr>attempts_made := attempts_made trace + 1\<rparr>)"
  using assms by (simp add: Let_def)

lemma upt_split_at: "j < n \<Longrightarrow> [0..<n] = [0..<j] @ j # [Suc j..<n]"
  by (metis less_imp_le_nat upt_add_eq_append upt_conv_Cons zero_le le_add_diff_inverse)

lemma retry_loop_rate_limited:
  assumes "\<forall>a \<in> set as. \<exists>m. outcome a = Raised m \<and> rate_limit_error m \<and>
             \<not> duplicate_error m \<and> \<not> unauthorized_error m"
  shows "retry_loop outcome max_retries as trace =
     ((False, False),
      trace\<lparr>attempts_made := attempts_made trace + length as,
            sleeps := sleeps trace @ map (\<lambda>a. min (2 ^ a * 2) 60) as\<rparr>)"
  using assms
proof (induction as arbitrary: trace)
  case Nil
  show ?case by simp
next
  case (Cons a as)
  from Cons.prems obtain m where m: "outcome a = Raised m" "rate_limit_error m"
    "\<not> duplicate_error m" "\<not> unauthorized_error m" by auto
  from Cons.prems have rest_ok: "\<forall>a \<in> set as. \<exists>m. outcome a = Raised m \<and> rate_limit_error m \<and>
             \<not> duplicate_error m \<and> \<not> unauthorized_error m" by simp
  show ?case
    using m by (simp add: Let_def Cons.IH [OF rest_ok])
qed

lemma retry_loop_network:
  assumes "\<forall>a \<in> set as. \<exists>m. outcome a = Raised m \<and> network_error m \<and>
             \<not> duplicate_error m \<and> \<not> unauthorized_error m \<and> \<not> rate_limit_error m"
  shows "retry_loop outcome max_retries as trace =
     ((False, False),
      trace\<lparr>attempts_made := attempts_made trace + length as,
            sleeps := sleeps trace @ [min (2 ^ a) 30. a \<leftarrow> as, int a < int max_retries - 1]\<rparr>)"
  using assms
proof (induction as arbitrary: trace)
  case Nil
  show ?case by simp
next
  case (Cons a as)
  from Cons.prems obtain m where m: "outcome a = Raised m" "network_error m"
    "\<not> duplicate_error m" "\<not> unauthorized_error m" "\<not> rate_limit_error m" by auto
  from Cons.prems have rest_ok: "\<forall>a \<in> set as. \<exists>m. outcome a = Raised m \<and> network_error m \<and>
             \<not> duplicate_error m \<and> \<not> unauthorized_error m \<and> \<not> rate_limit_error m" by simp
  show ?case
    using m by (simp add: Let_def Cons.IH [OF rest_ok])
qed

lemma upload_bound:
  "attempts_made (snd (upload_file_with_retry env p max_retries)) \<le> max_retries"
  using retry_loop_bound [of "attempt_outcome env p" max_retries "[0..<max_retries]"
      "\<lparr>attempts_made = 0, sleeps = [], invalidated = False\<rparr>"]
  by (simp add: upload_file_with_retry_def Let_def)

lemma upload_all_rate_limited:
  assumes "file_exists env p" and "file_readable env p"
    and "\<forall>i<max_retries. \<exists>m. attempt_outcome env p i = Raised m \<and> rate_limit_error m \<and>
           \<not> duplicate_error m \<and> \<not> unauthorized_error m"
  shows "upload_file_with_retry env p max_retries =
     ((False, False),
      \<lparr>attempts_made = max_retries,
       sleeps = map (\<lambda>a. min (2 ^ a * 2) 60) [0..<max_retries],
       invalidated = False\<rparr>)"
proof -
  from assms(3) have "\<forall>a \<in> set [0..<max_retries]. \<exists>m. attempt_outcome env p a = Raised m \<and>
      rate_limit_error m \<and> \<not> duplicate_error m \<and> \<not> unauthorized_error m"
    by simp
  from retry_loop_rate_limited [OF this] assms(1,2) show ?thesis
    by (simp add: upload_file_with_retry_def Let_def)
qed

lemma upload_all_network:
  assumes "file_exists env p" and "file_readable env p"
    and "\<forall>i<max_retries. \<exists>m. attempt_outcome env p i = Raised m \<and> network_error m \<and>
           \<not> duplicate_error m \<and> \<not> unauthorized_error m \<and> \<not> rate_limit_error m"
  shows "upload_file_with_retry env p max_retries =
     ((False, False),
      \<lparr>attempts_made = max_retries,
       sleeps = [min (2 ^ a) 30. a \<leftarrow> [0..<max_retries], int a < int max_retries - 1],
       invalidated = False\<rparr>)"
proof -
  from assms(3) have "\<forall>a \<in> set [0..<max_retries]. \<exists>m. attempt_outcome env p a = Raised m \<and>
      network_error m \<and> \<not> duplicate_error m \<and> \<not> unauthorized_error m \<and> \<not> rate_limit_error m"
    by simp
  from retry_loop_network [OF this] assms(1,2) show ?thesis
    by (simp add: upload_file_with_retry_def Let_def)
qed

lemma upload_duplicate:
  assumes "file_exists env p" and "file_readable env p"
    and "j < max_retries"
    and "\<forall>i<j. \<exists>m. attempt_outcome env p i = Raised m \<and> \<not> duplicate_error m \<and> \<not> unauthorized_error m"
    and "attempt_outcome env p j = Raised error_msg" and "duplicate_error error_msg"
  shows "fst (upload_file_with_retry env p max_retries) = (True, True)"
proof -
  from assms(4) have pre: "\<forall>a \<in> set [0..<j]. \<exists>m. attempt_outcome env p a = Raised m \<and>
      \<not> duplicate_error m \<and> \<not> unauthorized_error m" by simp
  from retry_loop_retried_prefix [OF pre, of max_retries "j # [Suc j..<max_retries]"
      "\<lparr>attempts_made = 0, sleeps = [], invalidated = False\<rparr>"]
  obtain trace' where "retry_loop (attempt_outcome env p) max_retries ([0..<j] @ j # [Suc j..<max_retries])
       \<lparr>attempts_made = 0, sleeps = [], invalidated = False\<rparr> =
     retry_loop (attempt_outcome env p) max_retries (j # [Suc j..<max_retries]) trace'"
    by blast
  also have "\<dots> = ((True, True), trace'\<lparr>attempts_made := attempts_made trace' + 1\<rparr>)"
    using assms(5,6) by (rule retry_loop_duplicate)
  finally have "retry_loop (attempt_outcome env p) max_retries [0..<max_retries]
       \<lparr>attempts_made = 0, sleeps = [], invalidated = False\<rparr> =
       ((True, True), trace'\<lparr>attempts_made := attempts_made trace' + 1\<rparr>)"
    by (simp only: upt_split_at [OF assms(3), symmetric])
  with assms(1,2) show ?thesis
    by (simp add: upload_file_with_retry_def Let_def)
qed


lemma handle_success_not_listed:
  assumes "find (\<lambda>info. path info = p) (scan_files_async env p) = None"
  shows "settings (handle_completed env p (True, b) st) = settings st \<and>
         map_of (results (handle_completed env p (True, b) st)) p = Some True"
  using assms by (simp add: handle_completed_def Let_def update_conv')

lemma handle_success_listed:
  assumes "find (\<lambda>info. path info = p) (scan_files_async env p) = Some info"
    and "mark_file_processed (clock env p) (settings st) info = Inr cm'"
  shows "settings (handle_completed env p (True, b) st) = cm' \<and>
         map_of (results (handle_completed env p (True, b) st)) p = Some True"
  using assms by (simp add: handle_completed_def Let_def update_conv')

lemma handle_duplicate_as_success:
  "settings (handle_completed env p (True, True) st) = settings (handle_completed env p (True, False) st) \<and>
   results (handle_completed env p (True, True) st) = results (handle_completed env p (True, False) st)"
  by (simp add: handle_completed_def Let_def split: option.splits sum.splits)




lemma rate_limit_message: 
  "rate_limit_error ''429 too many requests'' \<and> \<not> duplicate_error ''429 too many requests'' \<and>
   \<not> unauthorized_error ''429 too many requests''"
  by (simp add: rate_limit_error_def duplicate_error_def unauthorized_error_def)

lemma network_message:
  "network_error ''connection timeout'' \<and> \<not> duplicate_error ''connection timeout'' \<and>
   \<not> unauthorized_error ''connection timeout'' \<and> \<not> rate_limit_error ''connection timeout''"
  by (simp add: network_error_def rate_limit_error_def duplicate_error_def unauthorized_error_def)


subsection \<open>Duplicates\<close>

text \<open>
  A 409 answer at the attempt that the loop reaches makes the upload return
  \<open>(True, True)\<close>: success, duplicate. The completed upload is then handled as a plain
  success is, but for the counter that is incremented; when the scan lists a record
  with the path of the uploaded file, the record is marked and reported processed.
\<close>

lemma duplicate_marks_listed_file:
  assumes "file_exists env p" and "file_readable env p"
    and "j < MAX_RETRY_ATTEMPTS"
    and "\<forall>i<j. \<exists>m. attempt_outcome env p i = Raised m \<and> \<not> duplicate_error m \<and> \<not> unauthorized_error m"
    and "attempt_outcome env p j = Raised error_msg" and "str_in ''409'' error_msg"
  shows "fst (upload_file_with_retry env p MAX_RETRY_ATTEMPTS) = (True, True) \<and>
     settings (handle_completed env p (True, True) st) =
       settings (handle_completed env p (True, False) st) \<and>
     results (handle_completed env p (True, True) st) =
       results (handle_completed env p (True, False) st) \<and>
     (\<forall>info cm'. find (\<lambda>info. path info = p) (scan_files_async env p) = Some info \<and>
         mark_file_processed (clock env p) (settings st) info = Inr cm' \<longrightarrow>
           settings (handle_completed env p (True, True) st) = cm' \<and>
           is_file_processed cm' info = Inr True \<and>
           map_of (results (handle_completed env p (True, True) st)) p = Some True)"
proof -
  from assms(6) have dup: "duplicate_error error_msg" by (simp add: duplicate_error_def)
  have outcome: "fst (upload_file_with_retry env p MAX_RETRY_ATTEMPTS) = (True, True)"
    using assms(1-5) dup by (rule upload_duplicate)
  have listed: "settings (handle_completed env p (True, True) st) = cm' \<and>
           is_file_processed cm' info = Inr True \<and>
           map_of (results (handle_completed env p (True, True) st)) p = Some True"
    if found: "find (\<lambda>info. path info = p) (scan_files_async env p) = Some info"
      and marked: "mark_file_processed (clock env p) (settings st) info = Inr cm'"
    for info cm'
  proof -
    from marked_ledger [OF marked] obtain ledger where
      "map_of (config cm') ''processed_files'' = Some (JObj ledger)" and
      "(file_key info, JObj [(''timestamp'', JStr (clock env p)),
                         (''hash'', JStr (file_hash info)),
                         (''size'', JInt (size_bytes info)),
                         (''path'', JStr (path info))]) \<in> set ledger"
      by blast
    then have "is_file_processed cm' info = Inr True" by (rule processed_by_key)
    with handle_success_listed [OF found marked, of True] show ?thesis by simp
  qed
  from outcome handle_duplicate_as_success [of env p st] listed
  show ?thesis by blast
qed


text \<open>
  Claim C2: a 409 answer is to give the duplicate outcome and a ledger entry for the
  file, as a plain success does. The code looks the uploaded path up in the scan of the
  source folders. With a backup folder set, the file that is uploaded is the cleaned
  copy in the backup folder, which no scan lists: the 409 answer is reported as a
  duplicate, the ledger stays empty, and the source file is still reported as not
  processed. Without a backup folder the source file itself is uploaded, and the same
  answer writes the entry.
\<close>

theorem duplicate_in_backup_flow_not_marked:
  "upload_files
     \<lparr>file_exists = (\<lambda>p. True), file_readable = (\<lambda>p. True),
      attempt_outcome = (\<lambda>p i. Raised ''409 client error: conflict''),
      scan_files_async = (\<lambda>p.
        [\<lparr>name = ''MyNewActivity-1.fit'', path = ''a/MyNewActivity-1.fit'', size = ''1 KB'',
          date = ''01/11/2026 10:00'', source = ''MyWhoosh'', processed = False,
          modified_time = ''2026-11-01T10:00:00'', file_hash = ''0123456789abcdef'',
          size_bytes = 1024\<rparr>]),
      clock = (\<lambda>p. ''2026-11-01T10:05:00'')\<rparr>
     [''b/MW_2026-11-01_100000_1.fit''] [''b/MW_2026-11-01_100000_1.fit'']
     \<lparr>stats = \<lparr>total = 0, success = 0, failed = 0, duplicates = 0\<rparr>, results = [],
      settings = \<lparr>config = get_default_config, dirty = False, auto_save_timer = False\<rparr>\<rparr>
   = \<lparr>stats = \<lparr>total = 1, success = 0, failed = 0, duplicates = 1\<rparr>,
      results = [(''b/MW_2026-11-01_100000_1.fit'', True)],
      settings = \<lparr>config = get_default_config, dirty = False, auto_save_timer = False\<rparr>\<rparr> \<and>
   is_file_processed \<lparr>config = get_default_config, dirty = False, auto_save_timer = False\<rparr>
     \<lparr>name = ''MyNewActivity-1.fit'', path = ''a/MyNewActivity-1.fit'', size = ''1 KB'',
      date = ''01/11/2026 10:00'', source = ''MyWhoosh'', processed = False,
      modified_time = ''2026-11-01T10:00:00'', file_hash = ''0123456789abcdef'',
      size_bytes = 1024\<rparr> = Inr False \<and>
   upload_files
     \<lparr>file_exists = (\<lambda>p. True), file_readable = (\<lambda>p. True),
      attempt_outcome = (\<lambda>p i. Raised ''409 client error: conflict''),
      scan_files_async = (\<lambda>p.
        [\<lparr>name = ''MyNewActivity-1.fit'', path = ''a/MyNewActivity-1.fit'', size = ''1 KB'',
          date = ''01/11/2026 10:00'', source = ''MyWhoosh'', processed = False,
          modified_time = ''2026-11-01T10:00:00'', file_hash = ''0123456789abcdef'',
          size_bytes = 1024\<rparr>]),
      clock = (\<lambda>p. ''2026-11-01T10:05:00'')\<rparr>
     [''a/MyNewActivity-1.fit''] [''a/MyNewActivity-1.fit'']
     \<lparr>stats = \<lparr>total = 0, success = 0, failed = 0, duplicates = 0\<rparr>, results = [],
      settings = \<lparr>config = get_default_config, dirty = False, auto_save_timer = False\<rparr>\<rparr>
   = \<lparr>stats = \<lparr>total = 1, success = 0, failed = 0, duplicates = 1\<rparr>,
      results = [(''a/MyNewActivity-1.fit'', True)],
      settings = \<lparr>config = AList.update ''processed_files''
         (JObj [(''MyNewActivity-1.fit_1024'',
                 JObj [(''timestamp'', JStr ''2026-11-01T10:05:00''),
                       (''hash'', JStr ''0123456789abcdef''),
                       (''size'', JInt 1024),
                       (''path'', JStr ''a/MyNewActivity-1.fit'')])]) get_default_config,
       dirty = False, auto_save_timer = False\<rparr>\<rparr>"
  by (simp add: upload_files_def upload_file_with_retry_def handle_completed_def
      MAX_RETRY_ATTEMPTS_def duplicate_error_def Let_def upt_rec mark_file_processed_def
      config_get_def config_set_def is_file_processed_def hash_matches_def
      get_default_config_def file_key_example)

subsection \<open>Rate limiting\<close>

text \<open>
  Claim C3, as the code has it. Whatever the answers, the loop makes at most
  \<open>max_retries\<close> attempts. A rate-limit answer at attempt number \<open>attempt\<close> makes the
  loop sleep \<open>min (2 ^ attempt * 2) 60\<close> seconds and go on with the attempt numbers that
  remain: it uses up one of the \<open>max_retries\<close> attempts like any other failure, and
  there is no other bound. A file that is rate limited at every attempt is attempted
  \<open>max_retries\<close> times and reported failed.
\<close>

theorem rate_limit_consumes_attempts:
  "attempts_made (snd (upload_file_with_retry env p max_retries)) \<le> max_retries \<and>
   (outcome attempt = Raised error_msg \<and> rate_limit_error error_msg \<and>
    \<not> duplicate_error error_msg \<and> \<not> unauthorized_error error_msg \<longrightarrow>
      retry_loop outcome max_retries (attempt # rest) trace =
      retry_loop outcome max_retries rest
        (trace\<lparr>attempts_made := attempts_made trace + 1,
               sleeps := sleeps trace @ [min (2 ^ attempt * 2) 60]\<rparr>)) \<and>
   (file_exists env p \<and> file_readable env p \<and>
    (\<forall>i<max_retries. \<exists>m. attempt_outcome env p i = Raised m \<and> rate_limit_error m \<and>
        \<not> duplicate_error m \<and> \<not> unauthorized_error m) \<longrightarrow>
      upload_file_with_retry env p max_retries =
        ((False, False),
         \<lparr>attempts_made = max_retries,
          sleeps = map (\<lambda>a. min (2 ^ a * 2) 60) [0..<max_retries],
          invalidated = False\<rparr>))"
proof (intro conjI impI)
  show "attempts_made (snd (upload_file_with_retry env p max_retries)) \<le> max_retries"
    by (rule upload_bound)
next
  assume "outcome attempt = Raised error_msg \<and> rate_limit_error error_msg \<and>
    \<not> duplicate_error error_msg \<and> \<not> unauthorized_error error_msg"
  then show "retry_loop outcome max_retries (attempt # rest) trace =
      retry_loop outcome max_retries rest
        (trace\<lparr>attempts_made := attempts_made trace + 1,
               sleeps := sleeps trace @ [min (2 ^ attempt * 2) 60]\<rparr>)"
    by (simp add: Let_def)
next
  assume "file_exists env p \<and> file_readable env p \<and>
    (\<forall>i<max_retries. \<exists>m. attempt_outcome env p i = Raised m \<and> rate_limit_error m \<and>
        \<not> duplicate_error m \<and> \<not> unauthorized_error m)"
  then show "upload_file_with_retry env p max_retries =
        ((False, False),
         \<lparr>attempts_made = max_retries,
          sleeps = map (\<lambda>a. min (2 ^ a * 2) 60) [0..<max_retries],
          invalidated = False\<rparr>)"
    using upload_all_rate_limited [of env p max_retries] by blast
qed

theorem rate_limit_consumes_attempts_witness:
  "upload_file_with_retry
     \<lparr>file_exists = (\<lambda>p. True), file_readable = (\<lambda>p. True),
      attempt_outcome = (\<lambda>p i. Raised ''429 too many requests''),
      scan_files_async = (\<lambda>p. []), clock = (\<lambda>p. ''2026-11-01T10:05:00'')\<rparr>
     ''a/MyNewActivity-1.fit'' 6
   = ((False, False), \<lparr>attempts_made = 6, sleeps = [2, 4, 8, 16, 32, 60], invalidated = False\<rparr>)"
proof -
  have "upload_file_with_retry
     \<lparr>file_exists = (\<lambda>p. True), file_readable = (\<lambda>p. True),
      attempt_outcome = (\<lambda>p i. Raised ''429 too many requests''),
      scan_files_async = (\<lambda>p. []), clock = (\<lambda>p. ''2026-11-01T10:05:00'')\<rparr>
     ''a/MyNewActivity-1.fit'' 6
   = ((False, False),
         \<lparr>attempts_made = 6,
          sleeps = map (\<lambda>a. min (2 ^ a * 2) 60) [0..<6],
          invalidated = False\<rparr>)"
    using rate_limit_consumes_attempts
      [of "\<lparr>file_exists = (\<lambda>p. True), file_readable = (\<lambda>p. True),
      attempt_outcome = (\<lambda>p i. Raised ''429 too many requests''),
      scan_files_async = (\<lambda>p. []), clock = (\<lambda>p. ''2026-11-01T10:05:00'')\<rparr>"
      "''a/MyNewActivity-1.fit''" 6]
      rate_limit_message
    by simp
  moreover have "map (\<lambda>a. min (2 ^ a * 2) 60) [0..<6] = [2, 4, 8, 16, 32, 60::nat]"
    by (simp add: upt_rec)
  ultimately show ?thesis by (simp only:)
qed

text \<open>
  The claim as stated fails: after three rate-limit answers the file is given up, though
  the fourth attempt would have succeeded; and one rate-limit answer followed by two
  network errors exhausts the three attempts as well.
\<close>

theorem rate_limit_counterexample:
  "upload_file_with_retry
     \<lparr>file_exists = (\<lambda>p. True), file_readable = (\<lambda>p. True),
      attempt_outcome = (\<lambda>p i. if i < 3 then Raised ''429 too many requests'' else Uploaded),
      scan_files_async = (\<lambda>p. []), clock = (\<lambda>p. ''2026-11-01T10:05:00'')\<rparr>
     ''a/MyNewActivity-1.fit'' MAX_RETRY_ATTEMPTS
   = ((False, False), \<lparr>attempts_made = 3, sleeps = [2, 4, 8], invalidated = False\<rparr>) \<and>
   upload_file_with_retry
     \<lparr>file_exists = (\<lambda>p. True), file_readable = (\<lambda>p. True),
      attempt_outcome = (\<lambda>p i. if i = 0 then Raised ''429 too many requests''
                                else if i < 3 then Raised ''connection timeout'' else Uploaded),
      scan_files_async = (\<lambda>p. []), clock = (\<lambda>p. ''2026-11-01T10:05:00'')\<rparr>
     ''a/MyNewActivity-1.fit'' MAX_RETRY_ATTEMPTS
   = ((False, False), \<lparr>attempts_made = 3, sleeps = [2, 2], invalidated = False\<rparr>)"
  using rate_limit_message network_message
  by (simp add: upload_file_with_retry_def MAX_RETRY_ATTEMPTS_def Let_def upt_rec)


subsection \<open>Bounded retries\<close>






section \<open>Properties of the settings store\<close>

subsection \<open>Loading\<close>

lemma default_keys:
  "map fst get_default_config =
     [''username'', ''backup_path'', ''processed_files'', ''auto_select_new'',
      ''max_concurrent_uploads'', ''auto_save_interval'', ''ui_theme'', ''log_level'']"
  by (simp add: get_default_config_def)










text \<open>
  Three exceptions leave \<open>load\<close>: the one that the existence test raises, the one
  raised for a document that is not an object, and the one raised for a file that is not
  UTF-8.
\<close>

lemma load_escapes:
  "load ExistsRaisesOSError = Inl OSError \<and>
   load (Document (JList [])) = Inl AttributeError \<and>
   load RaisesUnicodeDecodeError = Inl UnicodeDecodeError"
  by (simp add: load_def validate_config_def)

subsection \<open>Saving\<close>

lemma temp_file_value: "temp_file = ''~/.fituploader_config.tmp''"
  by (simp add: temp_file_def with_suffix_def path_suffix_def path_name_def CONFIG_FILE_def Let_def)

lemma temp_file_distinct: "temp_file \<noteq> CONFIG_FILE"
  by (simp add: temp_file_value CONFIG_FILE_def)

lemma temp_file_same_directory: "path_parent temp_file = path_parent CONFIG_FILE"
  by (simp add: temp_file_value path_parent_def path_name_def CONFIG_FILE_def)

text \<open>Writing chunks to one file leaves every other file alone and appends to that file.\<close>

lemma write_chunks_other:
  "p \<noteq> t \<Longrightarrow> fold apply_op (map (WriteChunk t) chunks) fs p = fs p"
  by (induction chunks arbitrary: fs) simp_all

lemma write_chunks_file:
  "fs t = Some content \<Longrightarrow>
   fold apply_op (map (WriteChunk t) chunks) fs t = Some (content @ concat chunks)"
  by (induction chunks arbitrary: fs content) simp_all

lemma writing_prefix:
  assumes "k \<le> Suc (Suc (length chunks))"
  shows "fold apply_op (take k ([Mkdir d, OpenWrite temp_file] @ map (WriteChunk temp_file) chunks)) fs
           CONFIG_FILE = fs CONFIG_FILE"
proof (cases k)
  case 0
  then show ?thesis by simp
next
  case (Suc k1)
  show ?thesis
  proof (cases k1)
    case 0
    with Suc show ?thesis by simp
  next
    case (Suc k2)
    have "take k2 (map (WriteChunk temp_file) chunks) = map (WriteChunk temp_file) (take k2 chunks)"
      by (simp add: take_map)
    with \<open>k = Suc k1\<close> Suc temp_file_distinct show ?thesis
      by (simp add: write_chunks_other)
  qed
qed

lemma save_ops_length: "length (save_ops chunks) = length chunks + 3"
  by (simp add: save_ops_def)

lemma save_ops_cut:
  assumes "k < length (save_ops chunks)"
  shows "fold apply_op (take k (save_ops chunks)) fs CONFIG_FILE = fs CONFIG_FILE"
proof -
  from assms have k: "k \<le> Suc (Suc (length chunks))" by (simp add: save_ops_length)
  have "save_ops chunks =
        ([Mkdir (path_parent CONFIG_FILE), OpenWrite temp_file] @ map (WriteChunk temp_file) chunks) @
        [Replace temp_file CONFIG_FILE]"
    by (simp add: save_ops_def)
  moreover from k have "k \<le> length ([Mkdir (path_parent CONFIG_FILE), OpenWrite temp_file] @
                          map (WriteChunk temp_file) chunks)" by simp
  ultimately have "take k (save_ops chunks) =
        take k ([Mkdir (path_parent CONFIG_FILE), OpenWrite temp_file] @ map (WriteChunk temp_file) chunks)"
    by (simp only: take_append) simp
  with writing_prefix [OF k] show ?thesis by (simp only:)
qed

lemma save_ops_complete:
  "fold apply_op (save_ops chunks) fs =
     (fs(temp_file := None))(CONFIG_FILE \<mapsto> concat chunks)"
proof -
  have written: "fold apply_op (map (WriteChunk temp_file) chunks) (fs(temp_file \<mapsto> [])) temp_file =
        Some (concat chunks)"
    using write_chunks_file [of "fs(temp_file \<mapsto> [])" temp_file "[]" chunks] by simp
  have others: "fold apply_op (map (WriteChunk temp_file) chunks) (fs(temp_file \<mapsto> [])) p = fs p"
    if "p \<noteq> temp_file" for p
    using that write_chunks_other [of p temp_file chunks "fs(temp_file \<mapsto> [])"] by simp
  show ?thesis
  proof (rule ext)
    fix p
    show "fold apply_op (save_ops chunks) fs p = ((fs(temp_file := None))(CONFIG_FILE \<mapsto> concat chunks)) p"
      using written others [of p] temp_file_distinct
      by (simp add: save_ops_def)
  qed
qed

text \<open>
  Claim C8. \<open>save\<close> writes a temporary file, which lies in the directory of the
  settings file under another name, and renames it over the settings file as its last
  operation. Wherever the run is cut short, by a crash or by an exception, the settings
  file holds what it held before or the complete new document. When the run is cut short
  before the rename, the settings file holds what it held before and the store is as it
  was (still dirty). When nothing cuts it short, the settings file holds the complete
  serialised configuration, the temporary file is gone and the store is clean. A
  \<open>save\<close> that has nothing to write touches nothing.
\<close>

theorem save_is_atomic:
  "path_parent temp_file = path_parent CONFIG_FILE \<and> temp_file \<noteq> CONFIG_FILE \<and>
   (snd (save dumps force failure cm fs) CONFIG_FILE = fs CONFIG_FILE \<or>
    snd (save dumps force failure cm fs) CONFIG_FILE = Some (concat (dumps (config cm)))) \<and>
   (\<forall>k. failure = Some k \<and> k < length (save_ops (dumps (config cm))) \<longrightarrow>
      snd (save dumps force failure cm fs) CONFIG_FILE = fs CONFIG_FILE \<and>
      fst (save dumps force failure cm fs) = cm) \<and>
   ((dirty cm \<or> force) \<and> (\<forall>k. failure = Some k \<longrightarrow> length (save_ops (dumps (config cm))) \<le> k) \<longrightarrow>
      save dumps force failure cm fs =
        (cm\<lparr>dirty := False\<rparr>, (fs(temp_file := None))(CONFIG_FILE \<mapsto> concat (dumps (config cm))))) \<and>
   (\<not> dirty cm \<and> \<not> force \<longrightarrow> save dumps force failure cm fs = (cm, fs))"
proof -
  let ?ops = "save_ops (dumps (config cm))"
  have cut: "snd (save dumps force failure cm fs) CONFIG_FILE = fs CONFIG_FILE \<and>
             fst (save dumps force failure cm fs) = cm"
    if "failure = Some k" and "k < length ?ops" for k
    using that save_ops_cut [of k "dumps (config cm)" fs]
    by (simp add: save_def Let_def)
  have complete: "save dumps force failure cm fs =
        (cm\<lparr>dirty := False\<rparr>, (fs(temp_file := None))(CONFIG_FILE \<mapsto> concat (dumps (config cm))))"
    if "dirty cm \<or> force" and "\<forall>k. failure = Some k \<longrightarrow> length ?ops \<le> k"
    using that by (cases failure) (auto simp: save_def Let_def save_ops_complete)
  have idle: "save dumps force failure cm fs = (cm, fs)" if "\<not> dirty cm \<and> \<not> force"
    using that by (simp add: save_def)
  have either: "snd (save dumps force failure cm fs) CONFIG_FILE = fs CONFIG_FILE \<or>
    snd (save dumps force failure cm fs) CONFIG_FILE = Some (concat (dumps (config cm)))"
  proof (cases "\<not> dirty cm \<and> \<not> force")
    case True
    with idle show ?thesis by simp
  next
    case False
    then have must_write: "dirty cm \<or> force" by blast
    show ?thesis
    proof (cases "\<exists>k. failure = Some k \<and> k < length ?ops")
      case True
      with cut show ?thesis by blast
    next
      case False
      then have "\<forall>k. failure = Some k \<longrightarrow> length ?ops \<le> k" by (auto simp: not_less)
      from complete [OF must_write this] show ?thesis by simp
    qed
  qed
  from temp_file_same_directory temp_file_distinct either cut complete idle
  show ?thesis by blast
qed

theorem save_is_atomic_witness:
  "3 < length (save_ops [''{'', ''}'']) \<and>
   save (\<lambda>c. [''{'', ''}'']) False (Some 3)
     \<lparr>config = get_default_config, dirty = True, auto_save_timer = True\<rparr> [CONFIG_FILE \<mapsto> ''old'']
   = (\<lparr>config = get_default_config, dirty = True, auto_save_timer = True\<rparr>,
      [CONFIG_FILE \<mapsto> ''old'', temp_file \<mapsto> ''{'']) \<and>
   snd (save (\<lambda>c. [''{'', ''}'']) False (Some 3)
     \<lparr>config = get_default_config, dirty = True, auto_save_timer = True\<rparr> [CONFIG_FILE \<mapsto> ''old''])
     CONFIG_FILE = Some ''old'' \<and>
   save (\<lambda>c. [''{'', ''}'']) False None
     \<lparr>config = get_default_config, dirty = True, auto_save_timer = True\<rparr> [CONFIG_FILE \<mapsto> ''old'']
   = (\<lparr>config = get_default_config, dirty = False, auto_save_timer = True\<rparr>,
      ([CONFIG_FILE \<mapsto> ''old''](temp_file := None))(CONFIG_FILE \<mapsto> ''{}''))"
proof -
  have len: "3 < length (save_ops [''{'', ''}''])" by (simp add: save_ops_def)
  have cut: "save (\<lambda>c. [''{'', ''}'']) False (Some 3)
     \<lparr>config = get_default_config, dirty = True, auto_save_timer = True\<rparr> [CONFIG_FILE \<mapsto> ''old'']
   = (\<lparr>config = get_default_config, dirty = True, auto_save_timer = True\<rparr>,
      [CONFIG_FILE \<mapsto> ''old'', temp_file \<mapsto> ''{''])"
    by (simp add: save_def save_ops_def Let_def)
  from save_is_atomic
    [of "\<lambda>c. [''{'', ''}'']" False "Some 3"
        "\<lparr>config = get_default_config, dirty = True, auto_save_timer = True\<rparr>"
        "[CONFIG_FILE \<mapsto> ''old'']"] len
  have untouched: "snd (save (\<lambda>c. [''{'', ''}'']) False (Some 3)
     \<lparr>config = get_default_config, dirty = True, auto_save_timer = True\<rparr> [CONFIG_FILE \<mapsto> ''old''])
     CONFIG_FILE = Some ''old''"
    by simp
  from save_is_atomic
    [of "\<lambda>c. [''{'', ''}'']" False None
        "\<lparr>config = get_default_config, dirty = True, auto_save_timer = True\<rparr>"
        "[CONFIG_FILE \<mapsto> ''old'']"]
  have "save (\<lambda>c. [''{'', ''}'']) False None
     \<lparr>config = get_default_config, dirty = True, auto_save_timer = True\<rparr> [CONFIG_FILE \<mapsto> ''old'']
   = (\<lparr>config = get_default_config, dirty = False, auto_save_timer = True\<rparr>,
      ([CONFIG_FILE \<mapsto> ''old''](temp_file := None))(CONFIG_FILE \<mapsto> ''{}''))"
    by simp
  with len cut untouched show ?thesis by (intro conjI)
qed

end
